theory Spec2Isabelle
  imports Main
begin

section \<open>JavaScript strings and values\<close>

text \<open>
  A JavaScript string is a sequence of UTF-16 code units. The model uses \<^typ>\<open>string\<close>,
  whose characters are the code units below 256 (ASCII and Latin-1), and gives the
  built-in string operations the meaning they have on that range.

  \<open>String.prototype.toLowerCase\<close> maps \<open>A\<close>-\<open>Z\<close> (65-90) and the Latin-1 capitals
  192-222 except the multiplication sign 215 to the code unit 32 above, and leaves
  every other code unit below 256 as it is.
\<close>

definition toLowerCase_unit :: "char \<Rightarrow> char" where
  "toLowerCase_unit c =
     (let n = (of_char c :: nat)
      in if (65 \<le> n \<and> n \<le> 90) \<or> (192 \<le> n \<and> n \<le> 222 \<and> n \<noteq> 215)
         then char_of (n + 32) else c)"

definition toLowerCase :: "string \<Rightarrow> string" where
  "toLowerCase s = map toLowerCase_unit s"

text \<open>
  \<open>s.split(sep)\<close> for a separator of one code unit: the segments between the
  occurrences of the separator, in order; a string without the separator is its only
  segment. \<open>acc\<close> is the current segment, reversed.
\<close>

fun split_from :: "char \<Rightarrow> string \<Rightarrow> string \<Rightarrow> string list" where
  "split_from sep acc [] = [rev acc]"
| "split_from sep acc (c # cs) =
     (if c = sep then rev acc # split_from sep [] cs else split_from sep (c # acc) cs)"

definition js_split :: "char \<Rightarrow> string \<Rightarrow> string list" where
  "js_split sep s = split_from sep [] s"

text \<open>Array indexing \<open>xs[i]\<close>: \<open>undefined\<close> (here \<open>None\<close>) outside the array.\<close>

definition index :: "'a list \<Rightarrow> nat \<Rightarrow> 'a option" where
  "index xs i = (if i < length xs then Some (xs ! i) else None)"

text \<open>
  The values a property lookup on an object literal with string values can give:
  \<open>undefined\<close>, an own property's string, or a property inherited from
  \<open>Object.prototype\<close> (a built-in function or object, named here by its key).
  \<open>Null\<close> is the value the functions below return in place of a falsy one.
\<close>

datatype jsval = Undefined | Null | Str string | Inherited string

fun truthy :: "jsval \<Rightarrow> bool" where
  "truthy Undefined = False"
| "truthy Null = False"
| "truthy (Str s) = (s \<noteq> [])"
| "truthy (Inherited k) = True"

text \<open>A string or \<open>null\<close>/\<open>undefined\<close> (\<open>None\<close>) is truthy when it is a non-empty string.\<close>

fun truthy_str :: "string option \<Rightarrow> bool" where
  "truthy_str None = False"
| "truthy_str (Some s) = (s \<noteq> [])"

definition Object_prototype_keys :: "string list" where
  "Object_prototype_keys =
     [''constructor'', ''__defineGetter__'', ''__defineSetter__'', ''hasOwnProperty'',
      ''__lookupGetter__'', ''__lookupSetter__'', ''isPrototypeOf'',
      ''propertyIsEnumerable'', ''toString'', ''valueOf'', ''__proto__'',
      ''toLocaleString'']"

text \<open>
  \<open>obj[key]\<close> on an object literal: the own property if there is one, otherwise what
  \<open>Object.prototype\<close> has under that key, otherwise \<open>undefined\<close>. An \<open>undefined\<close> key is
  the property name \<open>"undefined"\<close>.
\<close>

definition property_key :: "string option \<Rightarrow> string" where
  "property_key k = (case k of None \<Rightarrow> ''undefined'' | Some s \<Rightarrow> s)"

definition object_get :: "(string \<times> string) list \<Rightarrow> string option \<Rightarrow> jsval" where
  "object_get obj k =
     (case map_of obj (property_key k) of
        Some v \<Rightarrow> Str v
      | None \<Rightarrow> if property_key k \<in> set Object_prototype_keys
                then Inherited (property_key k) else Undefined)"

text \<open>\<open>a || b\<close> on such values.\<close>

definition or_else :: "jsval \<Rightarrow> jsval \<Rightarrow> jsval" where
  "or_else a b = (if truthy a then a else b)"

text \<open>Decimal text of a number, as a template literal prints an HTTP status.\<close>

fun decimal :: "nat \<Rightarrow> string" where
  "decimal n =
     (if n < 10 then [char_of (48 + n)]
      else decimal (n div 10) @ [char_of (48 + n mod 10)])"

section \<open>Domain routing: \<open>determineLoginHintFromEmail\<close>\<close>

definition domainMappings :: "(string \<times> string) list" where
  "domainMappings =
     [(''gmail.com'', ''google''),
      (''outlook.com'', ''microsoft''),
      (''hotmail.com'', ''microsoft''),
      (''live.com'', ''microsoft''),
      (''msn.com'', ''microsoft'')]"

text \<open>
  \<^verbatim>\<open>const domain = email.split('@')[1]?.toLowerCase();\<close>
  \<^verbatim>\<open>const loginHint = domainMappings[domain];\<close>
  \<^verbatim>\<open>return loginHint || null;\<close>
  Nothing here throws on a string: a missing second segment is \<open>undefined\<close>, which the
  optional call passes on and the lookup takes as the key \<open>"undefined"\<close>.
\<close>

definition email_domain :: "string \<Rightarrow> string option" where
  "email_domain email = map_option toLowerCase (index (js_split (CHR ''@'') email) 1)"

definition determineLoginHintFromEmail :: "string \<Rightarrow> jsval" where
  "determineLoginHintFromEmail email =
     (let domain = email_domain email;
          loginHint = object_get domainMappings domain
      in or_else loginHint Null)"

section \<open>Email validation: \<open>isValidEmail\<close>\<close>

text \<open>
  The regular expressions the source uses are built from single code units, negated
  classes, concatenation and \<open>+\<close>. Matching is by derivatives; \<open>^\<close> and \<open>$\<close>
  around the whole expression make \<open>test\<close> a match of the whole string.
\<close>

datatype rexp =
    Zero
  | One
  | Atom char
  | NoneOf "char list"
  | Alt rexp rexp
  | Seq rexp rexp
  | Star rexp

definition Plus :: "rexp \<Rightarrow> rexp" where
  "Plus r = Seq r (Star r)"

fun nullable :: "rexp \<Rightarrow> bool" where
  "nullable Zero = False"
| "nullable One = True"
| "nullable (Atom c) = False"
| "nullable (NoneOf cs) = False"
| "nullable (Alt r s) = (nullable r \<or> nullable s)"
| "nullable (Seq r s) = (nullable r \<and> nullable s)"
| "nullable (Star r) = True"

fun deriv :: "char \<Rightarrow> rexp \<Rightarrow> rexp" where
  "deriv a Zero = Zero"
| "deriv a One = Zero"
| "deriv a (Atom c) = (if a = c then One else Zero)"
| "deriv a (NoneOf cs) = (if a \<in> set cs then Zero else One)"
| "deriv a (Alt r s) = Alt (deriv a r) (deriv a s)"
| "deriv a (Seq r s) =
     (if nullable r then Alt (Seq (deriv a r) s) (deriv a s) else Seq (deriv a r) s)"
| "deriv a (Star r) = Seq (deriv a r) (Star r)"

fun matches :: "rexp \<Rightarrow> string \<Rightarrow> bool" where
  "matches r [] = nullable r"
| "matches r (c # cs) = matches (deriv c r) cs"

text \<open>
  \<open>\s\<close> on code units below 256: tab, line feed, vertical tab, form feed, carriage
  return, space and the no-break space.
\<close>

definition whitespace :: "char list" where
  "whitespace = [CHR 0x09, CHR 0x0A, CHR 0x0B, CHR 0x0C, CHR 0x0D, CHR 0x20, CHR 0xA0]"

text \<open>\<^verbatim>\<open>[^\s@]\<close>\<close>

definition not_space_at :: rexp where
  "not_space_at = NoneOf (whitespace @ [CHR ''@''])"

text \<open>\<^verbatim>\<open>/^[^\s@]+@[^\s@]+\.[^\s@]+$/\<close>\<close>

definition emailRegex :: rexp where
  "emailRegex =
     Seq (Plus not_space_at)
       (Seq (Atom (CHR ''@''))
         (Seq (Plus not_space_at)
           (Seq (Atom (CHR ''.'')) (Plus not_space_at))))"

definition isValidEmail :: "string \<Rightarrow> bool" where
  "isValidEmail email = matches emailRegex email"

text \<open>
  The structural check in the specification's words: a non-empty local part, an \<open>@\<close>,
  and a non-empty domain part that contains a \<open>.\<close>, for some position of the \<open>@\<close>.
\<close>

definition spec_isValidEmail :: "string \<Rightarrow> bool" where
  "spec_isValidEmail email =
     list_ex (\<lambda>i. email ! i = CHR ''@'' \<and> take i email \<noteq> [] \<and>
                   drop (Suc i) email \<noteq> [] \<and> CHR ''.'' \<in> set (drop (Suc i) email))
       [0 ..< length email]"

text \<open>
  The router in the specification's words: lowercase what follows the last \<open>@\<close> and
  look it up in the table; no \<open>@\<close> gives none.
\<close>

definition after_last_at :: "string \<Rightarrow> string" where
  "after_last_at email = rev (takeWhile (\<lambda>c. c \<noteq> CHR ''@'') (rev email))"

definition spec_hintForEmail :: "string \<Rightarrow> string option" where
  "spec_hintForEmail email =
     (if CHR ''@'' \<in> set email then map_of domainMappings (toLowerCase (after_last_at email))
      else None)"


text \<open>
  The language of an expression, for stating what \<open>matches\<close> accepts.
\<close>

inductive_set star :: "string set \<Rightarrow> string set" for A :: "string set" where
  star_empty: "[] \<in> star A"
| star_more: "u \<in> A \<Longrightarrow> v \<in> star A \<Longrightarrow> u @ v \<in> star A"

definition conc :: "string set \<Rightarrow> string set \<Rightarrow> string set" where
  "conc A B = {u @ v | u v. u \<in> A \<and> v \<in> B}"

fun lang :: "rexp \<Rightarrow> string set" where
  "lang Zero = {}"
| "lang One = {[]}"
| "lang (Atom c) = {[c]}"
| "lang (NoneOf cs) = {[c] | c. c \<notin> set cs}"
| "lang (Alt r s) = lang r \<union> lang s"
| "lang (Seq r s) = conc (lang r) (lang s)"
| "lang (Star r) = star (lang r)"

text \<open>A non-empty run of code units that are neither white space nor \<open>@\<close>.\<close>

definition email_part :: "string \<Rightarrow> bool" where
  "email_part w = (w \<noteq> [] \<and> list_all (\<lambda>c. c \<notin> set whitespace \<and> c \<noteq> CHR ''@'') w)"

section \<open>Query strings: \<open>URLSearchParams.toString\<close>\<close>

text \<open>
  The application/x-www-form-urlencoded serializer works on the UTF-8 bytes of a
  string: a space becomes \<open>+\<close>, the bytes of \<open>*-._\<close>, digits and ASCII letters stay, every
  other byte is \<open>%\<close> and two upper-case hexadecimal digits. A code unit from 128 to 255
  is two bytes in UTF-8.
\<close>

definition hex_digit :: "nat \<Rightarrow> char" where
  "hex_digit d = ''0123456789ABCDEF'' ! d"

definition percent_encode :: "nat \<Rightarrow> string" where
  "percent_encode b = [CHR ''%'', hex_digit (b div 16), hex_digit (b mod 16)]"

definition utf8 :: "char \<Rightarrow> nat list" where
  "utf8 c = (let n = (of_char c :: nat)
             in if n < 128 then [n] else [192 + n div 64, 128 + n mod 64])"

definition urlencode_byte :: "nat \<Rightarrow> string" where
  "urlencode_byte b =
     (if b = 32 then ''+''
      else if b = 42 \<or> b = 45 \<or> b = 46 \<or> b = 95 \<or> (48 \<le> b \<and> b \<le> 57) \<or>
              (65 \<le> b \<and> b \<le> 90) \<or> (97 \<le> b \<and> b \<le> 122)
      then [char_of b]
      else percent_encode b)"

definition urlencode :: "string \<Rightarrow> string" where
  "urlencode s = concat (map (\<lambda>c. concat (map urlencode_byte (utf8 c))) s)"

fun URLSearchParams_toString :: "(string \<times> string) list \<Rightarrow> string" where
  "URLSearchParams_toString [] = []"
| "URLSearchParams_toString [(k, v)] = urlencode k @ ''='' @ urlencode v"
| "URLSearchParams_toString ((k, v) # ps) =
     urlencode k @ ''='' @ urlencode v @ ''&'' @ URLSearchParams_toString ps"

section \<open>The browser state and the platform\<close>

text \<open>
  Exceptions are values. The first four are the errors the provider throws itself;
  \<open>TypeError k\<close> is the read of property \<open>k\<close> on \<open>null\<close>; \<open>Rejected\<close> is any exception
  or promise rejection that comes from the platform (\<open>fetch\<close>, \<open>Response.json\<close>,
  \<open>JSON.parse\<close>, the crypto primitives behind the PKCE helpers), with its message. The
  platform's operations return \<open>Inl\<close> of the message when they fail.
\<close>

datatype error =
    NotConfigured
  | MissingVerifier
  | TokenExchangeFailed nat string
  | UserInfoFailed nat string
  | TypeError string
  | Rejected string

text \<open>
  A JSON object whose properties are strings, as the token and userinfo endpoints
  return and as \<open>normalizeUser\<close> builds: \<open>obj k = None\<close> is \<open>obj.k === undefined\<close>.
  The body of a response is such an object or \<open>null\<close>. (A number, a boolean or an
  array has none of the properties the code reads and is the object without
  properties here; a body that is a string, and properties that are not strings, are
  outside the model.)
\<close>

type_synonym json_object = "string \<rightharpoonup> string"

datatype json = JsonNull | JsonObject json_object

text \<open>\<open>a || b\<close> on strings that may be \<open>undefined\<close>, and the text of one in a template
  literal or as a storage value.\<close>

definition or_str :: "string option \<Rightarrow> string option \<Rightarrow> string option" where
  "or_str a b = (if truthy_str a then a else b)"

definition string_of :: "string option \<Rightarrow> string" where
  "string_of v = (case v of None \<Rightarrow> ''undefined'' | Some s \<Rightarrow> s)"

record request =
  req_url :: string
  req_method :: string
  req_headers :: "(string \<times> string) list"
  req_body :: string

text \<open>
  A response: its status, the body as \<open>text()\<close> gives it and as \<open>json()\<close> gives it
  (\<open>json()\<close> rejects on a body that is not JSON). \<open>response.ok\<close> is a status from 200 to 299.
\<close>

record response =
  resp_status :: nat
  resp_statusText :: string
  resp_text :: string
  resp_json :: "string + json"

definition ok :: "response \<Rightarrow> bool" where
  "ok r = (200 \<le> resp_status r \<and> resp_status r \<le> 299)"

text \<open>What \<open>JSON.parse\<close> returned, as far as \<open>logout\<close> looks at it.\<close>

datatype parsed = ParsedNull | ParsedValue

text \<open>
  The platform: the network behind \<open>fetch\<close> (which may reject), the JSON built-ins, the
  text an engine prints for a built-in of \<open>Object.prototype\<close>, the message it gives the
  \<open>TypeError\<close> for reading a property of \<open>null\<close>, and whether creating and attaching an
  element succeeds.
\<close>

record platform =
  fetch :: "request \<Rightarrow> string + response"
  JSON_parse :: "string \<Rightarrow> string + parsed"
  JSON_stringify :: "json_object \<Rightarrow> string"
  native_text :: "string \<Rightarrow> string"
  null_read_text :: "string \<Rightarrow> string"
  dom_ok :: bool

text \<open>\<open>error.message\<close>\<close>

fun message :: "platform \<Rightarrow> error \<Rightarrow> string" where
  "message pf NotConfigured = ''Keycloak not configured''"
| "message pf MissingVerifier =
     ''PKCE code verifier not found. Please restart the authentication flow.''"
| "message pf (TokenExchangeFailed st errorData) =
     ''Token exchange failed: '' @ decimal st @ '' - '' @ errorData"
| "message pf (UserInfoFailed st errorData) =
     ''Failed to get user info: '' @ decimal st @ '' - '' @ errorData"
| "message pf (TypeError k) = null_read_text pf k"
| "message pf (Rejected m) = m"

text \<open>
  The PKCE helpers of \<open>utils/pkce\<close>: one call of \<open>generateCodeVerifier()\<close> and the
  function \<open>generateCodeChallenge\<close>, either of which may fail.
\<close>

record pkce =
  generateCodeVerifier :: "string + string"
  generateCodeChallenge :: "string \<Rightarrow> string + string"

text \<open>
  The state of the page: the two storages, \<open>window.location\<close> (\<open>href\<close> is the navigation
  target, \<open>search\<close> the parsed query of the page's URL), the flag
  \<open>window.callbackProcessed\<close>, the requests issued with \<open>fetch\<close>, the hidden frames added
  to the document, and the entries into \<open>handleCallback\<close> with their arguments (the
  point of its first log line). Reads and writes of the two storages succeed: a browser
  that refuses access to storage is outside the model.
\<close>

record world =
  sessionStorage :: "string \<rightharpoonup> string"
  localStorage :: "string \<rightharpoonup> string"
  href :: string
  origin :: string
  search :: "string \<rightharpoonup> string"
  callbackProcessed :: bool
  fetched :: "request list"
  iframes :: "string list"
  entered :: "(string \<times> string) list"

section \<open>The provider: \<open>KeycloakProvider\<close>\<close>

record keycloak_provider =
  baseUrl :: string
  realm :: string
  clientId :: string

text \<open>\<^verbatim>\<open>process.env.X || 'default'\<close>\<close>

definition env_or :: "string option \<Rightarrow> string \<Rightarrow> string" where
  "env_or v d = (if truthy_str v then the v else d)"

definition KeycloakProvider :: "(string \<rightharpoonup> string) \<Rightarrow> keycloak_provider" where
  "KeycloakProvider env =
     \<lparr> baseUrl = env_or (env ''REACT_APP_KEYCLOAK_URL'') ''http://localhost:8080/auth'',
       realm = env_or (env ''REACT_APP_KEYCLOAK_REALM'') ''idp-redirector-demo'',
       clientId = env_or (env ''REACT_APP_KEYCLOAK_CLIENT_ID'') ''react-oidc-app'' \<rparr>"

definition isConfigured :: "keycloak_provider \<Rightarrow> bool" where
  "isConfigured p = (baseUrl p \<noteq> [] \<and> realm p \<noteq> [] \<and> clientId p \<noteq> [])"

definition endpoint :: "keycloak_provider \<Rightarrow> string \<Rightarrow> string" where
  "endpoint p name =
     baseUrl p @ ''/realms/'' @ realm p @ ''/protocol/openid-connect/'' @ name"

definition hint_params :: "jsval \<Rightarrow> (string \<times> string) list" where
  "hint_params loginHint =
     (case loginHint of
        Str h \<Rightarrow> if h = ''google'' \<or> h = ''microsoft'' then [(''kc_idp_hint'', h)] else []
      | _ \<Rightarrow> [])"

definition auth_params ::
  "keycloak_provider \<Rightarrow> string \<Rightarrow> string \<Rightarrow> string \<Rightarrow> jsval \<Rightarrow> (string \<times> string) list" where
  "auth_params p redirectUri scope codeChallenge loginHint =
     [(''response_type'', ''code''),
      (''client_id'', clientId p),
      (''redirect_uri'', redirectUri),
      (''scope'', scope),
      (''code_challenge'', codeChallenge),
      (''code_challenge_method'', ''S256'')] @ hint_params loginHint"

definition buildAuthUrl ::
  "keycloak_provider \<Rightarrow> pkce \<Rightarrow> string \<Rightarrow> string \<Rightarrow> jsval \<Rightarrow> world
     \<Rightarrow> (error + string) \<times> world" where
  "buildAuthUrl p pk redirectUri scope loginHint w =
     (case generateCodeVerifier pk of
        Inl m \<Rightarrow> (Inl (Rejected m), w)
      | Inr codeVerifier \<Rightarrow>
          (case generateCodeChallenge pk codeVerifier of
             Inl m \<Rightarrow> (Inl (Rejected m), w)
           | Inr codeChallenge \<Rightarrow>
               (let w1 = w\<lparr>sessionStorage :=
                            (sessionStorage w)(''keycloak_code_verifier'' \<mapsto> codeVerifier)\<rparr>;
                    params = auth_params p redirectUri scope codeChallenge loginHint
                in (Inr (endpoint p ''auth'' @ ''?'' @ URLSearchParams_toString params), w1))))"

definition login ::
  "keycloak_provider \<Rightarrow> pkce \<Rightarrow> string \<Rightarrow> jsval \<Rightarrow> world \<Rightarrow> (error + unit) \<times> world" where
  "login p pk redirectUri loginHint w =
     (if \<not> isConfigured p then (Inl NotConfigured, w)
      else (case buildAuthUrl p pk redirectUri ''openid email profile'' loginHint w of
              (Inl e, w1) \<Rightarrow> (Inl e, w1)
            | (Inr authUrl, w1) \<Rightarrow> (Inr (), w1\<lparr>href := authUrl\<rparr>)))"

text \<open>
  \<open>normalizeUser\<close> on a claims object. On \<open>null\<close> its first read, \<open>user.sub\<close>, throws;
  that branch is in \<open>handleCallback\<close>, its only caller.
\<close>

definition normalizeUser :: "json_object \<Rightarrow> json_object" where
  "normalizeUser user =
     (Map.empty
        (''id'' := user ''sub'',
         ''name'' := or_str (user ''name'')
                      (or_str (user ''preferred_username'') (Some ''Unknown User'')),
         ''email'' := user ''email'',
         ''picture'' := user ''picture'',
         ''provider'' \<mapsto> ''keycloak''))"

record callback_result =
  tokens :: json_object
  user :: json_object

definition token_request ::
  "keycloak_provider \<Rightarrow> string \<Rightarrow> string \<Rightarrow> string \<Rightarrow> request" where
  "token_request p code redirectUri codeVerifier =
     \<lparr> req_url = endpoint p ''token'',
       req_method = ''POST'',
       req_headers = [(''Content-Type'', ''application/x-www-form-urlencoded'')],
       req_body = URLSearchParams_toString
         [(''grant_type'', ''authorization_code''),
          (''client_id'', clientId p),
          (''code'', code),
          (''redirect_uri'', redirectUri),
          (''code_verifier'', codeVerifier)] \<rparr>"

definition userinfo_request :: "keycloak_provider \<Rightarrow> json_object \<Rightarrow> request" where
  "userinfo_request p tks =
     \<lparr> req_url = endpoint p ''userinfo'',
       req_method = ''GET'',
       req_headers = [(''Authorization'', ''Bearer '' @ string_of (tks ''access_token''))],
       req_body = [] \<rparr>"

text \<open>
  \<open>handleCallback\<close>, in the order of the source: read the verifier (a missing or empty
  one throws), exchange the code, keep the id token (the read of \<open>tokens.id_token\<close>
  throws on \<open>null\<close>), fetch the user info, and only then remove the verifier and
  normalize the claims. Every \<open>throw\<close> and every rejected \<open>await\<close> returns the state as
  it is at that point.
\<close>

definition handleCallback ::
  "keycloak_provider \<Rightarrow> platform \<Rightarrow> string \<Rightarrow> string \<Rightarrow> world
     \<Rightarrow> (error + callback_result) \<times> world" where
  "handleCallback p pf code redirectUri w0 =
     (let w = w0\<lparr>entered := entered w0 @ [(code, redirectUri)]\<rparr>;
          codeVerifier = sessionStorage w ''keycloak_code_verifier''
      in if \<not> truthy_str codeVerifier then (Inl MissingVerifier, w)
      else
        (let treq = token_request p code redirectUri (the codeVerifier);
             w1 = w\<lparr>fetched := fetched w @ [treq]\<rparr>
         in case fetch pf treq of
              Inl m \<Rightarrow> (Inl (Rejected m), w1)
            | Inr tokenResponse \<Rightarrow>
                if \<not> ok tokenResponse
                then (Inl (TokenExchangeFailed (resp_status tokenResponse)
                             (resp_text tokenResponse)), w1)
                else
                  (case resp_json tokenResponse of
                     Inl m \<Rightarrow> (Inl (Rejected m), w1)
                   | Inr JsonNull \<Rightarrow> (Inl (TypeError ''id_token''), w1)
                   | Inr (JsonObject tks) \<Rightarrow>
                       (let w2 = (if truthy_str (tks ''id_token'')
                                  then w1\<lparr>sessionStorage := (sessionStorage w1)
                                         (''keycloak_id_token'' \<mapsto> the (tks ''id_token''))\<rparr>
                                  else w1);
                            ureq = userinfo_request p tks;
                            w3 = w2\<lparr>fetched := fetched w2 @ [ureq]\<rparr>
                        in case fetch pf ureq of
                             Inl m \<Rightarrow> (Inl (Rejected m), w3)
                           | Inr userResponse \<Rightarrow>
                               if \<not> ok userResponse
                               then (Inl (UserInfoFailed (resp_status userResponse)
                                            (resp_text userResponse)), w3)
                               else
                                 (case resp_json userResponse of
                                    Inl m \<Rightarrow> (Inl (Rejected m), w3)
                                  | Inr usr \<Rightarrow>
                                      (let w4 = w3\<lparr>sessionStorage := (sessionStorage w3)
                                                  (''keycloak_code_verifier'' := None)\<rparr>
                                       in case usr of
                                            JsonNull \<Rightarrow> (Inl (TypeError ''sub''), w4)
                                          | JsonObject claims \<Rightarrow>
                                              (Inr \<lparr> tokens = tks,
                                                     user = normalizeUser claims \<rparr>, w4)))))))"

definition clearLocalStorage :: "world \<Rightarrow> world" where
  "clearLocalStorage w =
     w\<lparr> localStorage := (localStorage w)
           (''access_token'' := None, ''user_info'' := None, ''auth_provider'' := None),
        sessionStorage := (sessionStorage w)
           (''keycloak_code_verifier'' := None, ''keycloak_id_token'' := None),
        callbackProcessed := False \<rparr>"

definition performIdpSpecificLogout ::
  "platform \<Rightarrow> string option \<Rightarrow> string option \<Rightarrow> world \<Rightarrow> world" where
  "performIdpSpecificLogout pf identityProvider idToken w =
     (if \<not> truthy_str identityProvider \<or> \<not> truthy_str idToken then w
      else
        (let idpLogoutUrl =
               (if identityProvider = Some ''Google''
                then Some ''https://accounts.google.com/logout''
                else if identityProvider = Some ''Microsoft''
                then Some ''https://login.microsoftonline.com/common/oauth2/v2.0/logout''
                else None)
         in case idpLogoutUrl of
              None \<Rightarrow> w
            | Some u \<Rightarrow> if dom_ok pf then w\<lparr>iframes := iframes w @ [u]\<rparr> else w))"

definition logout_url :: "keycloak_provider \<Rightarrow> string \<Rightarrow> world \<Rightarrow> string" where
  "logout_url p idToken w =
     endpoint p ''logout'' @ ''?'' @ URLSearchParams_toString
       [(''client_id'', clientId p),
        (''id_token_hint'', idToken),
        (''post_logout_redirect_uri'', origin w @ ''/'')]"

text \<open>
  The body of the \<open>try\<close> in \<open>logout\<close>: \<open>JSON.parse\<close> may throw, and \<open>userInfo.email\<close>
  throws on a parsed \<open>null\<close>; both come before any change of the state.
\<close>

definition logout_try ::
  "keycloak_provider \<Rightarrow> platform \<Rightarrow> world \<Rightarrow> (error + unit) \<times> world" where
  "logout_try p pf w =
     (let idToken = sessionStorage w ''keycloak_id_token'';
          stored = or_str (localStorage w ''user_info'') (Some ''{}'')
      in case JSON_parse pf (string_of stored) of
           Inl m \<Rightarrow> (Inl (Rejected m), w)
         | Inr userInfo \<Rightarrow>
             (let identityProvider = localStorage w ''identity_provider''
              in if userInfo = ParsedNull
                 then (Inl (TypeError ''email''), w)
                 else if truthy_str idToken
                 then
                   (let logoutUrl = logout_url p (the idToken) w;
                        w1 = clearLocalStorage w;
                        w2 = performIdpSpecificLogout pf identityProvider idToken w1
                    in (Inr (), w2\<lparr>href := logoutUrl\<rparr>))
                 else (Inr (), (clearLocalStorage w)\<lparr>href := ''/''\<rparr>)))"

definition logout :: "keycloak_provider \<Rightarrow> platform \<Rightarrow> world \<Rightarrow> (error + unit) \<times> world" where
  "logout p pf w =
     (case logout_try p pf w of
        (Inr u, w1) \<Rightarrow> (Inr (), w1)
      | (Inl e, w1) \<Rightarrow> (Inr (), (clearLocalStorage w1)\<lparr>href := ''/''\<rparr>))"

section \<open>The callback component\<close>

record callback_view =
  status :: string
  userInfo :: "json_object option"
  identityProvider :: jsval

text \<open>The component's state on mount.\<close>

definition initial_view :: callback_view where
  "initial_view = \<lparr> status = ''Processing...'', userInfo = None, identityProvider = Null \<rparr>"

definition provider_labels :: "(string \<times> string) list" where
  "provider_labels =
     [(''gmail.com'', ''Google''),
      (''googlemail.com'', ''Google''),
      (''outlook.com'', ''Microsoft''),
      (''hotmail.com'', ''Microsoft''),
      (''live.com'', ''Microsoft''),
      (''msn.com'', ''Microsoft'')]"

definition detectIdentityProvider :: "string option \<Rightarrow> jsval" where
  "detectIdentityProvider email =
     (if \<not> truthy_str email then Null
      else or_else (object_get provider_labels (email_domain (the email)))
             (Str ''Unknown Provider''))"

text \<open>The text of a value in a template literal or as a storage value.\<close>

definition text_of :: "platform \<Rightarrow> jsval \<Rightarrow> string" where
  "text_of pf v =
     (case v of
        Undefined \<Rightarrow> ''undefined''
      | Null \<Rightarrow> ''null''
      | Str s \<Rightarrow> s
      | Inherited k \<Rightarrow> native_text pf k)"

text \<open>
  The effect's \<open>handleCallback\<close> of \<open>Callback.js\<close>: the guard on
  \<open>window.callbackProcessed\<close>, then the flag is set, all before the first \<open>await\<close>.
\<close>

definition store_result :: "platform \<Rightarrow> callback_result \<Rightarrow> jsval \<Rightarrow> world \<Rightarrow> world" where
  "store_result pf result detectedProvider w =
     (let w1 = w\<lparr>localStorage := (localStorage w)
                  (''access_token'' \<mapsto> string_of (tokens result ''access_token''),
                   ''user_info'' \<mapsto> JSON_stringify pf (user result),
                   ''auth_provider'' \<mapsto> ''keycloak'',
                   ''identity_provider'' \<mapsto>
                      text_of pf (or_else detectedProvider (Str ''Unknown'')))\<rparr>
      in if truthy_str (tokens result ''id_token'')
         then w1\<lparr>sessionStorage := (sessionStorage w1)
                (''keycloak_id_token'' \<mapsto> the (tokens result ''id_token''))\<rparr>
         else w1)"

definition callback_effect ::
  "keycloak_provider \<Rightarrow> platform \<Rightarrow> world \<times> callback_view \<Rightarrow> world \<times> callback_view" where
  "callback_effect p pf s =
     (case s of (w0, v) \<Rightarrow>
        if callbackProcessed w0 then (w0, v)
        else
          (let w = w0\<lparr>callbackProcessed := True\<rparr>;
               code = search w ''code'';
               err = search w ''error''
           in if truthy_str err then (w, v\<lparr>status := ''Error: '' @ the err\<rparr>)
              else if \<not> truthy_str code
              then (w, v\<lparr>status := ''No authorization code received''\<rparr>)
              else
                (let v1 = v\<lparr>status := ''Processing login...''\<rparr>
                 in case handleCallback p pf (the code) (origin w @ ''/callback'') w of
                      (Inl e, w1) \<Rightarrow> (w1, v1\<lparr>status := ''Error: '' @ message pf e\<rparr>)
                    | (Inr result, w1) \<Rightarrow>
                        (let detectedProvider = detectIdentityProvider (user result ''email'')
                         in (store_result pf result detectedProvider w1,
                             v1\<lparr> userInfo := Some (user result),
                                 identityProvider := detectedProvider,
                                 status := (if truthy detectedProvider
                                            then text_of pf detectedProvider @
                                                 '' login successful!''
                                            else ''Login successful!'') \<rparr>)))))"

text \<open>Invocations of the effect within one page load, one after the other.\<close>

fun callback_effects ::
  "keycloak_provider \<Rightarrow> platform list \<Rightarrow> world \<times> callback_view \<Rightarrow> world \<times> callback_view" where
  "callback_effects p [] s = s"
| "callback_effects p (pf # pfs) s = callback_effects p pfs (callback_effect p pf s)"


section \<open>Scenarios\<close>

text \<open>
  Concrete inputs: a provider built with no environment setting, a callback page
  that holds a verifier, a broker whose token endpoint answers 200 with both tokens and
  whose userinfo endpoint answers as given, a signed-in page without an id token, and
  one with an id token whose stored identity record is cut off.
\<close>

definition local_provider :: keycloak_provider where
  "local_provider = KeycloakProvider Map.empty"

definition callback_page :: world where
  "callback_page =
     \<lparr> sessionStorage = [''keycloak_code_verifier'' \<mapsto> ''v1''],
       localStorage = Map.empty,
       href = ''http://localhost:3001/callback?code=abc'',
       origin = ''http://localhost:3001'',
       search = [''code'' \<mapsto> ''abc''],
       callbackProcessed = False,
       fetched = [],
       iframes = [],
       entered = [] \<rparr>"

definition token_response :: response where
  "token_response =
     \<lparr> resp_status = 200, resp_statusText = ''OK'', resp_text = [],
       resp_json = Inr (JsonObject [''access_token'' \<mapsto> ''AT1'', ''id_token'' \<mapsto> ''IT1'']) \<rparr>"

definition userinfo_ok :: response where
  "userinfo_ok =
     \<lparr> resp_status = 200, resp_statusText = ''OK'', resp_text = [],
       resp_json = Inr (JsonObject [''sub'' \<mapsto> ''u1'', ''email'' \<mapsto> ''user@gmail.com'',
                                    ''name'' \<mapsto> ''U One'']) \<rparr>"

definition userinfo_401 :: response where
  "userinfo_401 =
     \<lparr> resp_status = 401, resp_statusText = ''Unauthorized'', resp_text = ''denied'',
       resp_json = Inl ''Unexpected token'' \<rparr>"

definition broker :: "response \<Rightarrow> platform" where
  "broker userinfo =
     \<lparr> fetch = (\<lambda>r. if req_method r = ''POST'' then Inr token_response else Inr userinfo),
       JSON_parse = (\<lambda>s. if s = ''{}'' then Inr ParsedValue else Inl ''Unexpected token''),
       JSON_stringify = (\<lambda>obj. ''{}''),
       native_text = (\<lambda>k. k),
       null_read_text = (\<lambda>k. ''Cannot read properties of null''),
       dom_ok = True \<rparr>"

definition signed_in_page :: world where
  "signed_in_page =
     \<lparr> sessionStorage = Map.empty,
       localStorage = [''access_token'' \<mapsto> ''AT1'', ''user_info'' \<mapsto> ''{}'',
                       ''auth_provider'' \<mapsto> ''keycloak'', ''identity_provider'' \<mapsto> ''Google''],
       href = ''http://localhost:3001/'',
       origin = ''http://localhost:3001'',
       search = Map.empty,
       callbackProcessed = True,
       fetched = [],
       iframes = [],
       entered = [] \<rparr>"

definition corrupt_page :: world where
  "corrupt_page =
     signed_in_page
       \<lparr> sessionStorage := [''keycloak_id_token'' \<mapsto> ''IT1''],
         localStorage := (localStorage signed_in_page)(''user_info'' \<mapsto> ''{cut'') \<rparr>"

definition fixed_pkce :: pkce where
  "fixed_pkce =
     \<lparr> generateCodeVerifier = Inr ''v1'', generateCodeChallenge = (\<lambda>v. Inr (''c-'' @ v)) \<rparr>"

section \<open>Properties of the domain router\<close>

subsection \<open>Splitting, lowercasing and inherited properties\<close>

lemma split_from_plain: "sep \<notin> set l \<Longrightarrow> split_from sep acc l = [rev acc @ l]"
  by (induction l arbitrary: acc) auto

lemma split_from_cut:
  "sep \<notin> set l \<Longrightarrow> split_from sep acc (l @ sep # rest) = (rev acc @ l) # split_from sep [] rest"
  by (induction l arbitrary: acc) auto

lemma email_domain_no_at: "CHR ''@'' \<notin> set email \<Longrightarrow> email_domain email = None"
  by (simp add: email_domain_def js_split_def split_from_plain index_def)

lemma email_domain_segment:
  assumes "email = l @ ''@'' @ d @ r" "CHR ''@'' \<notin> set l" "CHR ''@'' \<notin> set d"
    and "r = [] \<or> hd r = CHR ''@''"
  shows "email_domain email = Some (toLowerCase d)"
proof -
  have first: "js_split (CHR ''@'') email = l # split_from (CHR ''@'') [] (d @ r)"
    using assms(1,2) split_from_cut [of "CHR ''@''" l "[]" "d @ r"]
    by (simp add: js_split_def)
  have "\<exists>ys. split_from (CHR ''@'') [] (d @ r) = d # ys"
  proof (cases r)
    case Nil
    then show ?thesis using assms(3) by (simp add: split_from_plain)
  next
    case (Cons a r')
    with assms(4) have "r = CHR ''@'' # r'" by simp
    then show ?thesis
      using assms(3) split_from_cut [of "CHR ''@''" d "[]" r'] by simp
  qed
  then obtain ys where "split_from (CHR ''@'') [] (d @ r) = d # ys" ..
  with first show ?thesis by (simp add: email_domain_def index_def)
qed

lemma toLowerCase_unit_not_capital:
  "\<not> (65 \<le> (of_char (toLowerCase_unit c) :: nat) \<and> (of_char (toLowerCase_unit c) :: nat) \<le> 90)"
  by (auto simp: toLowerCase_unit_def Let_def)

lemma toLowerCase_no_capital:
  assumes "c \<in> set (toLowerCase d)"
  shows "\<not> (65 \<le> (of_char c :: nat) \<and> (of_char c :: nat) \<le> 90)"
proof -
  from assms obtain b where "c = toLowerCase_unit b" by (auto simp: toLowerCase_def)
  then show ?thesis using toLowerCase_unit_not_capital [of b] by simp
qed

lemma inherited_lower_case:
  "toLowerCase d \<in> set Object_prototype_keys \<longleftrightarrow>
     toLowerCase d = ''constructor'' \<or> toLowerCase d = ''__proto__''"
proof -
  have G: "CHR ''G'' \<notin> set (toLowerCase d)" using toLowerCase_no_capital [of "CHR ''G''" d] by auto
  have S: "CHR ''S'' \<notin> set (toLowerCase d)" using toLowerCase_no_capital [of "CHR ''S''" d] by auto
  have P: "CHR ''P'' \<notin> set (toLowerCase d)" using toLowerCase_no_capital [of "CHR ''P''" d] by auto
  have E: "CHR ''E'' \<notin> set (toLowerCase d)" using toLowerCase_no_capital [of "CHR ''E''" d] by auto
  have O: "CHR ''O'' \<notin> set (toLowerCase d)" using toLowerCase_no_capital [of "CHR ''O''" d] by auto
  have L: "CHR ''L'' \<notin> set (toLowerCase d)" using toLowerCase_no_capital [of "CHR ''L''" d] by auto
  show ?thesis
    unfolding Object_prototype_keys_def using G S P E O L by auto
qed

lemma domainMappings_truthy: "map_of domainMappings k = Some h \<Longrightarrow> h \<noteq> []"
  by (auto simp: domainMappings_def split: if_splits)

lemma determineLoginHintFromEmail_of_domain:
  assumes "email_domain email = Some k" "k \<noteq> ''constructor''" "k \<noteq> ''__proto__''"
    and "k = toLowerCase d"
  shows "determineLoginHintFromEmail email =
     (case map_of domainMappings k of Some h \<Rightarrow> Str h | None \<Rightarrow> Null)"
proof (cases "map_of domainMappings k")
  case None
  moreover have "k \<notin> set Object_prototype_keys"
    using assms(2,3,4) inherited_lower_case [of d] by simp
  ultimately show ?thesis
    using assms(1)
    by (simp add: determineLoginHintFromEmail_def object_get_def property_key_def or_else_def)
next
  case (Some h)
  then have "h \<noteq> []" by (rule domainMappings_truthy)
  with Some show ?thesis
    using assms(1)
    by (simp add: determineLoginHintFromEmail_def object_get_def property_key_def or_else_def)
qed

lemma after_last_at_single: "CHR ''@'' \<notin> set d \<Longrightarrow> after_last_at (l @ ''@'' @ d) = d"
proof -
  assume "CHR ''@'' \<notin> set d"
  then have "takeWhile (\<lambda>c. c \<noteq> CHR ''@'') (rev d @ CHR ''@'' # rev l) = rev d"
    by (intro takeWhile_tail [THEN trans] ) (auto simp: takeWhile_eq_all_conv)
  then show ?thesis by (simp add: after_last_at_def)
qed

text \<open>
  Claim C4, as the code has it. For every email string, \<open>determineLoginHintFromEmail\<close>
  returns none when the string has no \<open>@\<close>. Otherwise it lowercases the segment between
  the first \<open>@\<close> and the next one (or the end of the string) and, unless that is the
  name \<open>constructor\<close> or \<open>__proto__\<close>, returns the table's hint for it (\<open>gmail.com\<close> gives
  the Google hint, \<open>outlook.com\<close> the Microsoft hint) and none when the table has no entry.
  When the string has a single \<open>@\<close> the segment is what follows the last \<open>@\<close>.
\<close>

theorem determineLoginHintFromEmail_lookup:
  "(CHR ''@'' \<notin> set email \<longrightarrow> determineLoginHintFromEmail email = Null) \<and>
   (email = l @ ''@'' @ d @ r \<and> CHR ''@'' \<notin> set l \<and> CHR ''@'' \<notin> set d \<and>
    (r = [] \<or> hd r = CHR ''@'') \<and>
    toLowerCase d \<noteq> ''constructor'' \<and> toLowerCase d \<noteq> ''__proto__'' \<longrightarrow>
      determineLoginHintFromEmail email =
        (case map_of domainMappings (toLowerCase d) of Some h \<Rightarrow> Str h | None \<Rightarrow> Null) \<and>
      (r = [] \<longrightarrow> after_last_at email = d)) \<and>
   map_of domainMappings ''gmail.com'' = Some ''google'' \<and>
   map_of domainMappings ''outlook.com'' = Some ''microsoft'' \<and>
   determineLoginHintFromEmail ''user@gmail.com'' = Str ''google'' \<and>
   determineLoginHintFromEmail ''user@outlook.com'' = Str ''microsoft'' \<and>
   determineLoginHintFromEmail ''user@example.org'' = Null \<and>
   determineLoginHintFromEmail ''not-an-email'' = Null"
proof (intro conjI impI)
  assume "CHR ''@'' \<notin> set email"
  then have "email_domain email = None" by (rule email_domain_no_at)
  then show "determineLoginHintFromEmail email = Null"
    by (simp add: determineLoginHintFromEmail_def object_get_def property_key_def or_else_def
        domainMappings_def Object_prototype_keys_def)
next
  assume a: "email = l @ ''@'' @ d @ r \<and> CHR ''@'' \<notin> set l \<and> CHR ''@'' \<notin> set d \<and>
    (r = [] \<or> hd r = CHR ''@'') \<and>
    toLowerCase d \<noteq> ''constructor'' \<and> toLowerCase d \<noteq> ''__proto__''"
  then have "email_domain email = Some (toLowerCase d)"
    using email_domain_segment [of email l d r] by blast
  with a show "determineLoginHintFromEmail email =
        (case map_of domainMappings (toLowerCase d) of Some h \<Rightarrow> Str h | None \<Rightarrow> Null)"
    using determineLoginHintFromEmail_of_domain [of email "toLowerCase d" d] by blast
next
  assume a: "email = l @ ''@'' @ d @ r \<and> CHR ''@'' \<notin> set l \<and> CHR ''@'' \<notin> set d \<and>
    (r = [] \<or> hd r = CHR ''@'') \<and>
    toLowerCase d \<noteq> ''constructor'' \<and> toLowerCase d \<noteq> ''__proto__''"
    and "r = []"
  then show "after_last_at email = d"
    using after_last_at_single [of d l] by simp
next
  show "map_of domainMappings ''gmail.com'' = Some ''google''" by code_simp
  show "map_of domainMappings ''outlook.com'' = Some ''microsoft''" by code_simp
  show "determineLoginHintFromEmail ''user@gmail.com'' = Str ''google''" by code_simp
  show "determineLoginHintFromEmail ''user@outlook.com'' = Str ''microsoft''" by code_simp
  show "determineLoginHintFromEmail ''user@example.org'' = Null" by code_simp
  show "determineLoginHintFromEmail ''not-an-email'' = Null" by code_simp
qed

text \<open>
  The theorem at an address with two \<open>@\<close> and a mixed-case domain, and at a string
  without \<open>@\<close>.
\<close>

theorem determineLoginHintFromEmail_lookup_witness:
  "determineLoginHintFromEmail ''a@HotMail.com@evil.org'' = Str ''microsoft'' \<and>
   determineLoginHintFromEmail ''no.at.sign'' = Null"
proof -
  have e: "''a@HotMail.com@evil.org'' = ''a'' @ ''@'' @ ''HotMail.com'' @ ''@evil.org''"
    by simp
  have lc: "toLowerCase ''HotMail.com'' = ''hotmail.com''" by code_simp
  have m: "map_of domainMappings ''hotmail.com'' = Some ''microsoft''" by code_simp
  have n: "CHR ''@'' \<notin> set ''no.at.sign''" by simp
  have h: "''a@HotMail.com@evil.org'' = ''a'' @ ''@'' @ ''HotMail.com'' @ ''@evil.org'' \<and>
      CHR ''@'' \<notin> set ''a'' \<and> CHR ''@'' \<notin> set ''HotMail.com'' \<and>
      (''@evil.org'' = [] \<or> hd ''@evil.org'' = CHR ''@'') \<and>
      toLowerCase ''HotMail.com'' \<noteq> ''constructor'' \<and>
      toLowerCase ''HotMail.com'' \<noteq> ''__proto__''"
    unfolding lc by simp
  note t1 = determineLoginHintFromEmail_lookup
      [of "''a@HotMail.com@evil.org''" "''a''" "''HotMail.com''" "''@evil.org''"]
  note t2 = determineLoginHintFromEmail_lookup [of "''no.at.sign''" "[]" "[]" "[]"]
  from t1 h have "determineLoginHintFromEmail ''a@HotMail.com@evil.org'' =
      (case map_of domainMappings (toLowerCase ''HotMail.com'') of
         Some h \<Rightarrow> Str h | None \<Rightarrow> Null)"
    by blast
  then have "determineLoginHintFromEmail ''a@HotMail.com@evil.org'' = Str ''microsoft''"
    unfolding lc m by simp
  moreover from t2 n have "determineLoginHintFromEmail ''no.at.sign'' = Null"
    by blast
  ultimately show ?thesis by (rule conjI)
qed

text \<open>
  With two \<open>@\<close> the segment after the first one is looked up, not what follows the last
  one: the specification's router gives the Google hint here, the code gives none.
\<close>

theorem determineLoginHintFromEmail_last_at_counterexample:
  "determineLoginHintFromEmail ''a@b@gmail.com'' = Null \<and>
   spec_hintForEmail ''a@b@gmail.com'' = Some ''google''"
  by code_simp

section \<open>Properties of the email check\<close>

subsection \<open>The matcher accepts the language of the expression\<close>

lemma nullable_lang: "nullable r \<longleftrightarrow> [] \<in> lang r"
  by (induction r) (auto simp: conc_def intro: star.star_empty)

lemma conc_iff: "w \<in> conc A B \<longleftrightarrow> (\<exists>u v. w = u @ v \<and> u \<in> A \<and> v \<in> B)"
  by (auto simp: conc_def)

lemma conc_tail: "a # w \<in> conc A B \<longleftrightarrow>
    (\<exists>u v. w = u @ v \<and> a # u \<in> A \<and> v \<in> B) \<or> ([] \<in> A \<and> a # w \<in> B)"
proof
  assume "a # w \<in> conc A B"
  then obtain u v where uv: "a # w = u @ v" "u \<in> A" "v \<in> B"
    by (auto simp: conc_def)
  show "(\<exists>u v. w = u @ v \<and> a # u \<in> A \<and> v \<in> B) \<or> ([] \<in> A \<and> a # w \<in> B)"
  proof (cases u)
    case Nil
    with uv show ?thesis by simp
  next
    case (Cons b u')
    with uv have "w = u' @ v" "a # u' \<in> A" by auto
    with uv show ?thesis by blast
  qed
next
  assume "(\<exists>u v. w = u @ v \<and> a # u \<in> A \<and> v \<in> B) \<or> ([] \<in> A \<and> a # w \<in> B)"
  then show "a # w \<in> conc A B"
  proof
    assume "\<exists>u v. w = u @ v \<and> a # u \<in> A \<and> v \<in> B"
    then obtain u v where "w = u @ v" "a # u \<in> A" "v \<in> B" by blast
    then have "a # w = (a # u) @ v" by simp
    with \<open>a # u \<in> A\<close> \<open>v \<in> B\<close> show ?thesis unfolding conc_def by blast
  next
    assume "[] \<in> A \<and> a # w \<in> B"
    then have "a # w = [] @ (a # w)" "[] \<in> A" "a # w \<in> B" by auto
    then show ?thesis unfolding conc_def by blast
  qed
qed

lemma star_tail_split:
  assumes "x \<in> star A" "x = a # w"
  shows "\<exists>u v. w = u @ v \<and> a # u \<in> A \<and> v \<in> star A"
  using assms
proof (induction arbitrary: w rule: star.induct)
  case star_empty
  then show ?case by simp
next
  case (star_more u v)
  show ?case
  proof (cases u)
    case Nil
    with star_more show ?thesis by simp
  next
    case (Cons b u')
    with star_more.prems have "w = u' @ v" "b = a" by auto
    with Cons star_more.hyps show ?thesis by blast
  qed
qed

lemma star_tail: "a # w \<in> star A \<longleftrightarrow> (\<exists>u v. w = u @ v \<and> a # u \<in> A \<and> v \<in> star A)"
proof
  assume "a # w \<in> star A"
  then show "\<exists>u v. w = u @ v \<and> a # u \<in> A \<and> v \<in> star A"
    using star_tail_split by blast
next
  assume "\<exists>u v. w = u @ v \<and> a # u \<in> A \<and> v \<in> star A"
  then obtain u v where "w = u @ v" "a # u \<in> A" "v \<in> star A" by blast
  then have "(a # u) @ v \<in> star A" by (intro star.star_more)
  with \<open>w = u @ v\<close> show "a # w \<in> star A" by simp
qed

lemma conc_deriv:
  assumes "\<And>u. u \<in> lang (deriv a r) \<longleftrightarrow> a # u \<in> lang r"
  shows "w \<in> conc (lang (deriv a r)) B \<longleftrightarrow> (\<exists>u v. w = u @ v \<and> a # u \<in> lang r \<and> v \<in> B)"
  unfolding conc_def using assms by auto

lemma deriv_lang: "w \<in> lang (deriv a r) \<longleftrightarrow> a # w \<in> lang r"
proof (induction r arbitrary: w)
  case (Seq r s)
  have left: "w \<in> conc (lang (deriv a r)) (lang s) \<longleftrightarrow>
      (\<exists>u v. w = u @ v \<and> a # u \<in> lang r \<and> v \<in> lang s)"
    by (rule conc_deriv) (rule Seq.IH(1))
  show ?case
  proof (cases "nullable r")
    case True
    then show ?thesis
      using left Seq.IH(2) [of w] by (simp add: conc_tail nullable_lang)
  next
    case False
    then show ?thesis
      using left by (simp add: conc_tail nullable_lang)
  qed
next
  case (Star r)
  have "w \<in> conc (lang (deriv a r)) (star (lang r)) \<longleftrightarrow>
      (\<exists>u v. w = u @ v \<and> a # u \<in> lang r \<and> v \<in> star (lang r))"
    by (rule conc_deriv) (rule Star.IH)
  then show ?case by (simp add: star_tail)
qed auto

lemma matches_lang: "matches r w \<longleftrightarrow> w \<in> lang r"
  by (induction w arbitrary: r) (simp_all add: nullable_lang deriv_lang)

lemma star_units_only:
  assumes "w \<in> star {[c] | c. c \<notin> set cs}"
  shows "set w \<inter> set cs = {}"
  using assms by (induction rule: star.induct) auto

lemma star_units_all: "set w \<inter> set cs = {} \<Longrightarrow> w \<in> star {[c] | c. c \<notin> set cs}"
proof (induction w)
  case Nil
  show ?case by (rule star.star_empty)
next
  case (Cons a w)
  then have "[a] \<in> {[c] | c. c \<notin> set cs}" "w \<in> star {[c] | c. c \<notin> set cs}"
    by auto
  then have "[a] @ w \<in> star {[c] | c. c \<notin> set cs}"
    by (rule star.star_more)
  then show ?case by simp
qed

lemma lang_Plus_NoneOf: "w \<in> lang (Plus (NoneOf cs)) \<longleftrightarrow> w \<noteq> [] \<and> set w \<inter> set cs = {}"
proof
  assume "w \<in> lang (Plus (NoneOf cs))"
  then obtain c v where "w = [c] @ v" "c \<notin> set cs" "v \<in> star {[c] | c. c \<notin> set cs}"
    by (auto simp: Plus_def conc_def)
  then show "w \<noteq> [] \<and> set w \<inter> set cs = {}"
    using star_units_only [of v cs] by auto
next
  assume a: "w \<noteq> [] \<and> set w \<inter> set cs = {}"
  then obtain c v where w: "w = c # v" by (cases w) auto
  with a have "c \<notin> set cs" "v \<in> star {[c] | c. c \<notin> set cs}"
    by (auto intro: star_units_all)
  then have "[c] @ v \<in> conc {[c] | c. c \<notin> set cs} (star {[c] | c. c \<notin> set cs})"
    unfolding conc_def by blast
  with w show "w \<in> lang (Plus (NoneOf cs))" by (simp add: Plus_def)
qed

lemma lang_not_space_at: "w \<in> lang (Plus not_space_at) \<longleftrightarrow> email_part w"
  unfolding not_space_at_def lang_Plus_NoneOf email_part_def
  by (auto simp: list_all_iff)

lemma lang_emailRegex:
  "s \<in> lang emailRegex \<longleftrightarrow>
     (\<exists>l x y. s = l @ ''@'' @ x @ ''.'' @ y \<and> email_part l \<and> email_part x \<and> email_part y)"
proof
  assume "s \<in> lang emailRegex"
  then obtain l r1 where 1: "s = l @ r1" "email_part l"
      and "r1 \<in> lang (Seq (Atom (CHR ''@'')) (Seq (Plus not_space_at) (Seq (Atom (CHR ''.'')) (Plus not_space_at))))"
    unfolding emailRegex_def lang.simps(6) [of "Plus not_space_at"] conc_iff lang_not_space_at
    by blast
  then obtain r2 where 2: "r1 = ''@'' @ r2"
      and "r2 \<in> lang (Seq (Plus not_space_at) (Seq (Atom (CHR ''.'')) (Plus not_space_at)))"
    unfolding lang.simps(6) [of "Atom (CHR ''@'')"] conc_iff lang.simps(3)
    by blast
  then obtain x r3 where 3: "r2 = x @ r3" "email_part x"
      and "r3 \<in> lang (Seq (Atom (CHR ''.'')) (Plus not_space_at))"
    unfolding lang.simps(6) [of "Plus not_space_at"] conc_iff lang_not_space_at
    by blast
  then obtain y where 4: "r3 = ''.'' @ y" "email_part y"
    unfolding lang.simps(6) [of "Atom (CHR ''.'')"] conc_iff lang.simps(3) lang_not_space_at
    by blast
  from 1 2 3 4 have "s = l @ ''@'' @ x @ ''.'' @ y" by simp
  with 1 3 4 show "\<exists>l x y. s = l @ ''@'' @ x @ ''.'' @ y \<and> email_part l \<and> email_part x \<and> email_part y"
    by blast
next
  assume "\<exists>l x y. s = l @ ''@'' @ x @ ''.'' @ y \<and> email_part l \<and> email_part x \<and> email_part y"
  then obtain l x y where s: "s = l @ ''@'' @ x @ ''.'' @ y"
      and p: "email_part l" "email_part x" "email_part y"
    by blast
  from p(3) have "''.'' @ y \<in> lang (Seq (Atom (CHR ''.'')) (Plus not_space_at))"
    unfolding lang.simps(6) conc_iff lang.simps(3) lang_not_space_at by blast
  with p(2) have "x @ ''.'' @ y \<in> lang (Seq (Plus not_space_at) (Seq (Atom (CHR ''.'')) (Plus not_space_at)))"
    unfolding lang.simps(6) [of "Plus not_space_at"] conc_iff lang_not_space_at by blast
  then have "''@'' @ x @ ''.'' @ y \<in> lang (Seq (Atom (CHR ''@'')) (Seq (Plus not_space_at) (Seq (Atom (CHR ''.'')) (Plus not_space_at))))"
    unfolding lang.simps(6) [of "Atom (CHR ''@'')"] conc_iff lang.simps(3) by blast
  with p(1) have "l @ ''@'' @ x @ ''.'' @ y \<in> lang emailRegex"
    unfolding emailRegex_def lang.simps(6) [of "Plus not_space_at"] conc_iff lang_not_space_at by blast
  with s show "s \<in> lang emailRegex" by simp
qed

text \<open>
  Claim C5, as the code has it. \<open>isValidEmail\<close> is true exactly for the strings
  \<open>local@x.y\<close> in which \<open>local\<close>, \<open>x\<close> and \<open>y\<close> are non-empty and contain neither white
  space nor \<open>@\<close>: one \<open>@\<close>, and a \<open>.\<close> in the domain part that is neither its first nor
  its last character. In particular \<open>a@b.com\<close> is valid and \<open>invalid\<close> is not.
\<close>

theorem isValidEmail_shape:
  "(isValidEmail s \<longleftrightarrow>
     (\<exists>l x y. s = l @ ''@'' @ x @ ''.'' @ y \<and> email_part l \<and> email_part x \<and> email_part y))
   \<and> isValidEmail ''a@b.com'' \<and> \<not> isValidEmail ''invalid''"
proof (intro conjI)
  show "isValidEmail s \<longleftrightarrow>
     (\<exists>l x y. s = l @ ''@'' @ x @ ''.'' @ y \<and> email_part l \<and> email_part x \<and> email_part y)"
    unfolding isValidEmail_def matches_lang by (rule lang_emailRegex)
  show "isValidEmail ''a@b.com''" by code_simp
  show "\<not> isValidEmail ''invalid''" by code_simp
qed

text \<open>The theorem at an address whose domain part has two dots.\<close>

theorem isValidEmail_shape_witness:
  "isValidEmail ''user@mail.example.org'' \<and> email_part ''user'' \<and>
   email_part ''mail.example'' \<and> email_part ''org''"
proof -
  have p: "email_part ''user''" "email_part ''mail.example''" "email_part ''org''"
    by code_simp+
  have e: "''user@mail.example.org'' = ''user'' @ ''@'' @ ''mail.example'' @ ''.'' @ ''org''"
    by simp
  have "\<exists>l x y. ''user@mail.example.org'' = l @ ''@'' @ x @ ''.'' @ y \<and>
      email_part l \<and> email_part x \<and> email_part y"
    using e p by (intro exI conjI)
  then have "isValidEmail ''user@mail.example.org''"
    using isValidEmail_shape [of "''user@mail.example.org''"] by (elim conjE) (rule iffD2)
  with p show ?thesis by (intro conjI)
qed

text \<open>
  A non-empty local part, an \<open>@\<close> and a non-empty domain part with a \<open>.\<close> are not
  enough: a domain part that starts with its only \<open>.\<close>, and a local part with a space,
  are both rejected.
\<close>

theorem isValidEmail_structural_counterexample:
  "\<not> isValidEmail ''a@.com'' \<and> spec_isValidEmail ''a@.com'' \<and>
   \<not> isValidEmail ''a b@c.com'' \<and> spec_isValidEmail ''a b@c.com''"
  by code_simp

section \<open>Properties of login initiation\<close>

lemma urlencode_keys:
  "urlencode ''response_type'' = ''response_type''"
  "urlencode ''client_id'' = ''client_id''"
  "urlencode ''redirect_uri'' = ''redirect_uri''"
  "urlencode ''scope'' = ''scope''"
  "urlencode ''code_challenge'' = ''code_challenge''"
  "urlencode ''code_challenge_method'' = ''code_challenge_method''"
  "urlencode ''kc_idp_hint'' = ''kc_idp_hint''"
  "urlencode ''code'' = ''code''"
  "urlencode ''S256'' = ''S256''"
  "urlencode ''google'' = ''google''"
  "urlencode ''microsoft'' = ''microsoft''"
  by code_simp+

lemma hint_query:
  "URLSearchParams_toString ((k, v) # hint_params loginHint) =
     urlencode k @ ''='' @ urlencode v @
     (if loginHint = Str ''google'' then ''&kc_idp_hint=google''
      else if loginHint = Str ''microsoft'' then ''&kc_idp_hint=microsoft'' else [])"
  by (cases loginHint) (simp_all add: hint_params_def urlencode_keys)

lemma buildAuthUrl_success:
  assumes "generateCodeVerifier pk = Inr v" and "generateCodeChallenge pk v = Inr c"
  shows "buildAuthUrl p pk redirectUri scope loginHint w =
           (Inr (baseUrl p @ ''/realms/'' @ realm p @ ''/protocol/openid-connect/auth?'' @
                 ''response_type=code'' @
                 ''&client_id='' @ urlencode (clientId p) @
                 ''&redirect_uri='' @ urlencode redirectUri @
                 ''&scope='' @ urlencode scope @
                 ''&code_challenge='' @ urlencode c @
                 ''&code_challenge_method=S256'' @
                 (if loginHint = Str ''google'' then ''&kc_idp_hint=google''
                  else if loginHint = Str ''microsoft'' then ''&kc_idp_hint=microsoft''
                  else [])),
            w\<lparr>sessionStorage := (sessionStorage w)(''keycloak_code_verifier'' \<mapsto> v)\<rparr>)"
proof -
  have q: "URLSearchParams_toString (auth_params p redirectUri scope c loginHint) =
      ''response_type=code'' @
      ''&client_id='' @ urlencode (clientId p) @
      ''&redirect_uri='' @ urlencode redirectUri @
      ''&scope='' @ urlencode scope @
      ''&code_challenge='' @ urlencode c @
      ''&code_challenge_method=S256'' @
      (if loginHint = Str ''google'' then ''&kc_idp_hint=google''
       else if loginHint = Str ''microsoft'' then ''&kc_idp_hint=microsoft'' else [])"
    unfolding auth_params_def
    by (simp add: urlencode_keys hint_query del: append_assoc)
  show ?thesis
    using assms by (simp add: buildAuthUrl_def q endpoint_def Let_def)
qed

lemma scenario_encodings:
  "urlencode ''react-oidc-app'' = ''react-oidc-app''"
  "urlencode ''http://localhost:3001/callback'' = ''http%3A%2F%2Flocalhost%3A3001%2Fcallback''"
  "urlencode ''openid email profile'' = ''openid+email+profile''"
  "urlencode ''c-v1'' = ''c-v1''"
  by code_simp+

lemma fixed_pkce_results:
  "generateCodeVerifier fixed_pkce = Inr ''v1''"
  "generateCodeChallenge fixed_pkce ''v1'' = Inr ''c-v1''"
  by (simp_all add: fixed_pkce_def)

text \<open>
  Claim C6. When the PKCE helpers return a verifier and its challenge, the URL that
  \<open>buildAuthUrl\<close> returns is the authorization endpoint followed by the query
  \<open>response_type=code\<close>, \<open>client_id\<close>, \<open>redirect_uri\<close>, \<open>scope\<close>, \<open>code_challenge\<close> and
  \<open>code_challenge_method=S256\<close>, in this order and form-encoded, for every redirect URI,
  scope and hint; with the hint of a \<open>gmail.com\<close> address, \<open>kc_idp_hint=google\<close> follows;
  and afterwards session storage holds the verifier under \<open>keycloak_code_verifier\<close>.
\<close>

theorem buildAuthUrl_parameters:
  assumes "generateCodeVerifier pk = Inr v" and "generateCodeChallenge pk v = Inr c"
  shows "buildAuthUrl p pk redirectUri scope loginHint w =
           (Inr (baseUrl p @ ''/realms/'' @ realm p @ ''/protocol/openid-connect/auth?'' @
                 ''response_type=code'' @
                 ''&client_id='' @ urlencode (clientId p) @
                 ''&redirect_uri='' @ urlencode redirectUri @
                 ''&scope='' @ urlencode scope @
                 ''&code_challenge='' @ urlencode c @
                 ''&code_challenge_method=S256'' @
                 (if loginHint = Str ''google'' then ''&kc_idp_hint=google''
                  else if loginHint = Str ''microsoft'' then ''&kc_idp_hint=microsoft''
                  else [])),
            w\<lparr>sessionStorage := (sessionStorage w)(''keycloak_code_verifier'' \<mapsto> v)\<rparr>)
         \<and> sessionStorage (snd (buildAuthUrl p pk redirectUri scope loginHint w))
              ''keycloak_code_verifier'' = Some v
         \<and> determineLoginHintFromEmail ''user@gmail.com'' = Str ''google''"
proof -
  have g: "determineLoginHintFromEmail ''user@gmail.com'' = Str ''google''"
    by code_simp
  show ?thesis
    using buildAuthUrl_success [OF assms, of p redirectUri scope loginHint w] g by simp
qed

text \<open>
  The theorem on the callback URI of a local page, with the hint of
  \<open>user@gmail.com\<close>.
\<close>

theorem buildAuthUrl_parameters_witness:
  "fst (buildAuthUrl local_provider fixed_pkce ''http://localhost:3001/callback''
          ''openid email profile'' (determineLoginHintFromEmail ''user@gmail.com'') callback_page) =
     Inr (''http://localhost:8080/auth/realms/idp-redirector-demo/protocol/openid-connect/auth'' @
          ''?response_type=code&client_id=react-oidc-app'' @
          ''&redirect_uri=http%3A%2F%2Flocalhost%3A3001%2Fcallback'' @
          ''&scope=openid+email+profile&code_challenge=c-v1'' @
          ''&code_challenge_method=S256&kc_idp_hint=google'')
   \<and> sessionStorage (snd (buildAuthUrl local_provider fixed_pkce ''http://localhost:3001/callback''
          ''openid email profile'' (determineLoginHintFromEmail ''user@gmail.com'') callback_page))
        ''keycloak_code_verifier'' = Some ''v1''"
proof -
  have p: "baseUrl local_provider = ''http://localhost:8080/auth''"
    "realm local_provider = ''idp-redirector-demo''"
    "clientId local_provider = ''react-oidc-app''"
    by (simp_all add: local_provider_def KeycloakProvider_def env_or_def)
  have g: "determineLoginHintFromEmail ''user@gmail.com'' = Str ''google''"
    by code_simp
  note t = buildAuthUrl_parameters [OF fixed_pkce_results, of local_provider
      "''http://localhost:3001/callback''" "''openid email profile''" "Str ''google''" callback_page]
  show ?thesis unfolding g using t by (simp add: scenario_encodings p)
qed

text \<open>
  Claim C10. The constructor puts a non-empty default in place of every missing or
  empty setting, so \<open>isConfigured\<close> holds of every provider it builds, for every
  environment; \<open>login\<close> then never fails with the not-configured error and goes on to
  \<open>buildAuthUrl\<close> (which stores the verifier) and to the redirect.
\<close>

theorem constructed_provider_isConfigured:
  "isConfigured (KeycloakProvider env) \<and>
   fst (login (KeycloakProvider env) pk redirectUri loginHint w) \<noteq> Inl NotConfigured \<and>
   login (KeycloakProvider env) pk redirectUri loginHint w =
     (case buildAuthUrl (KeycloakProvider env) pk redirectUri ''openid email profile'' loginHint w of
        (Inl e, w1) \<Rightarrow> (Inl e, w1)
      | (Inr authUrl, w1) \<Rightarrow> (Inr (), w1\<lparr>href := authUrl\<rparr>))"
proof -
  have conf: "isConfigured (KeycloakProvider env)"
    by (cases "env ''REACT_APP_KEYCLOAK_URL''"; cases "env ''REACT_APP_KEYCLOAK_REALM''";
        cases "env ''REACT_APP_KEYCLOAK_CLIENT_ID''")
       (simp_all add: isConfigured_def KeycloakProvider_def env_or_def)
  have nc: "fst (buildAuthUrl q pk redirectUri sc loginHint w) \<noteq> Inl NotConfigured" for q sc
    by (simp add: buildAuthUrl_def Let_def split: sum.splits)
  have eq: "login (KeycloakProvider env) pk redirectUri loginHint w =
     (case buildAuthUrl (KeycloakProvider env) pk redirectUri ''openid email profile'' loginHint w of
        (Inl e, w1) \<Rightarrow> (Inl e, w1)
      | (Inr authUrl, w1) \<Rightarrow> (Inr (), w1\<lparr>href := authUrl\<rparr>))"
    using conf by (simp add: login_def)
  have "fst (login (KeycloakProvider env) pk redirectUri loginHint w) \<noteq> Inl NotConfigured"
    using nc [of "KeycloakProvider env" "''openid email profile''"]
    unfolding eq by (auto split: prod.splits sum.splits)
  with conf eq show ?thesis by blast
qed

text \<open>The theorem on an environment whose base URL is set to the empty string.\<close>

theorem constructed_provider_isConfigured_witness:
  "isConfigured (KeycloakProvider [''REACT_APP_KEYCLOAK_URL'' \<mapsto> []]) \<and>
   login (KeycloakProvider [''REACT_APP_KEYCLOAK_URL'' \<mapsto> []]) fixed_pkce
     ''http://localhost:3001/callback'' Null callback_page =
     (Inr (), callback_page
        \<lparr> sessionStorage := (sessionStorage callback_page)(''keycloak_code_verifier'' \<mapsto> ''v1''),
          href := ''http://localhost:8080/auth/realms/idp-redirector-demo/protocol/openid-connect/auth'' @
                  ''?response_type=code&client_id=react-oidc-app'' @
                  ''&redirect_uri=http%3A%2F%2Flocalhost%3A3001%2Fcallback'' @
                  ''&scope=openid+email+profile&code_challenge=c-v1'' @
                  ''&code_challenge_method=S256'' \<rparr>)"
proof -
  let ?p = "KeycloakProvider [''REACT_APP_KEYCLOAK_URL'' \<mapsto> []]"
  have p: "baseUrl ?p = ''http://localhost:8080/auth''"
    "realm ?p = ''idp-redirector-demo''"
    "clientId ?p = ''react-oidc-app''"
    by (simp_all add: KeycloakProvider_def env_or_def)
  have b: "buildAuthUrl ?p fixed_pkce ''http://localhost:3001/callback'' ''openid email profile''
      Null callback_page =
      (Inr (''http://localhost:8080/auth/realms/idp-redirector-demo/protocol/openid-connect/auth'' @
                  ''?response_type=code&client_id=react-oidc-app'' @
                  ''&redirect_uri=http%3A%2F%2Flocalhost%3A3001%2Fcallback'' @
                  ''&scope=openid+email+profile&code_challenge=c-v1'' @
                  ''&code_challenge_method=S256''),
       callback_page\<lparr>sessionStorage := (sessionStorage callback_page)(''keycloak_code_verifier'' \<mapsto> ''v1'')\<rparr>)"
    using buildAuthUrl_success [OF fixed_pkce_results, of ?p "''http://localhost:3001/callback''"
      "''openid email profile''" Null callback_page]
    by (simp add: scenario_encodings p)
  from constructed_provider_isConfigured [of "[''REACT_APP_KEYCLOAK_URL'' \<mapsto> []]" fixed_pkce
      "''http://localhost:3001/callback''" Null callback_page]
  show ?thesis unfolding b by simp
qed

section \<open>Properties of the callback exchange\<close>

text \<open>
  Claim C8, as the code has it. For every claims object, the normalized record has
  \<open>id\<close> equal to \<open>sub\<close>; \<open>name\<close> equal to the \<open>name\<close> claim when that is a non-empty
  string, otherwise to \<open>preferred_username\<close> when that is a non-empty string, otherwise
  to \<open>Unknown User\<close>; \<open>email\<close> and \<open>picture\<close> as they came; \<open>provider\<close> equal to the
  constant \<open>keycloak\<close> whatever the claims; and no other property.
\<close>

theorem normalizeUser_fields:
  "normalizeUser usr ''id'' = usr ''sub'' \<and>
   normalizeUser usr ''name'' =
     (if truthy_str (usr ''name'') then usr ''name''
      else if truthy_str (usr ''preferred_username'') then usr ''preferred_username''
      else Some ''Unknown User'') \<and>
   normalizeUser usr ''email'' = usr ''email'' \<and>
   normalizeUser usr ''picture'' = usr ''picture'' \<and>
   normalizeUser usr ''provider'' = Some ''keycloak'' \<and>
   (\<forall>k. k \<notin> {''id'', ''name'', ''email'', ''picture'', ''provider''} \<longrightarrow>
        normalizeUser usr k = None)"
  by (simp add: normalizeUser_def or_str_def)

text \<open>The theorem on claims with an empty \<open>name\<close> and a preferred username.\<close>

theorem normalizeUser_fields_witness:
  "normalizeUser [''sub'' \<mapsto> ''u1'', ''preferred_username'' \<mapsto> ''uone'', ''name'' \<mapsto> []] ''name''
     = Some ''uone'' \<and>
   normalizeUser [''sub'' \<mapsto> ''u1'', ''preferred_username'' \<mapsto> ''uone'', ''name'' \<mapsto> []] ''id''
     = Some ''u1'' \<and>
   normalizeUser [''sub'' \<mapsto> ''u1'', ''preferred_username'' \<mapsto> ''uone'', ''name'' \<mapsto> []] ''sub''
     = None"
  using normalizeUser_fields
    [of "[''sub'' \<mapsto> ''u1'', ''preferred_username'' \<mapsto> ''uone'', ''name'' \<mapsto> []]"]
  by simp

text \<open>The \<open>provider\<close> of the normalized record is not the string \<open>broker\<close>.\<close>

theorem normalizeUser_provider_counterexample:
  "normalizeUser [''sub'' \<mapsto> ''u1'', ''email'' \<mapsto> ''user@gmail.com'', ''name'' \<mapsto> ''U One'']
     ''provider'' \<noteq> Some ''broker''"
  by (simp add: normalizeUser_def)

subsection \<open>What \<open>handleCallback\<close> does with the verifier\<close>

lemma handleCallback_missing:
  assumes "\<not> truthy_str (sessionStorage w ''keycloak_code_verifier'')"
  shows "handleCallback p pf code redirectUri w =
     (Inl MissingVerifier, w\<lparr>entered := entered w @ [(code, redirectUri)]\<rparr>)"
  using assms by (simp add: handleCallback_def)

lemma handleCallback_verifier:
  assumes "sessionStorage w ''keycloak_code_verifier'' = Some v" "v \<noteq> []"
    and "handleCallback p pf code redirectUri w = (r, w')"
  shows "sessionStorage w' ''keycloak_code_verifier'' =
     (case r of Inl e \<Rightarrow> if e = TypeError ''sub'' then None else Some v | Inr res \<Rightarrow> None)"
  using assms
  by (auto simp: handleCallback_def Let_def split: sum.splits if_splits json.splits)

lemma handleCallback_success_removes:
  assumes "handleCallback p pf code redirectUri w = (Inr res, w')"
  shows "sessionStorage w' ''keycloak_code_verifier'' = None"
  using assms
  by (auto simp: handleCallback_def Let_def split: sum.splits if_splits json.splits)

lemma handleCallback_first_request:
  assumes "sessionStorage w ''keycloak_code_verifier'' = Some v" "v \<noteq> []"
  shows "\<exists>rest. fetched (snd (handleCallback p pf code redirectUri w)) =
     fetched w @ token_request p code redirectUri v # rest"
  using assms
  by (auto simp: handleCallback_def Let_def split: sum.splits if_splits json.splits)

lemma handleCallback_userinfo_failed:
  assumes "sessionStorage w ''keycloak_code_verifier'' = Some v" "v \<noteq> []"
    and "fetch pf (token_request p code redirectUri v) = Inr tr" "ok tr"
    and "resp_json tr = Inr (JsonObject tks)"
    and "fetch pf (userinfo_request p tks) = Inr ur" "\<not> ok ur"
  shows "fst (handleCallback p pf code redirectUri w) =
           Inl (UserInfoFailed (resp_status ur) (resp_text ur))"
    and "localStorage (snd (handleCallback p pf code redirectUri w)) = localStorage w"
  using assms
  by (auto simp: handleCallback_def Let_def split: sum.splits if_splits json.splits)

lemma scenario_requests:
  "req_method (token_request p code redirectUri v) = ''POST''"
  "req_method (userinfo_request p tks) = ''GET''"
  by (simp_all add: token_request_def userinfo_request_def)

lemma scenario_fetch:
  "fetch (broker u) (token_request p code redirectUri v) = Inr token_response"
  "fetch (broker u) (userinfo_request p tks) = Inr u"
  by (simp_all add: broker_def scenario_requests)

lemma scenario_responses:
  "ok token_response" "ok userinfo_ok" "\<not> ok userinfo_401"
  "resp_json token_response =
     Inr (JsonObject [''access_token'' \<mapsto> ''AT1'', ''id_token'' \<mapsto> ''IT1''])"
  "resp_json userinfo_ok =
     Inr (JsonObject [''sub'' \<mapsto> ''u1'', ''email'' \<mapsto> ''user@gmail.com'', ''name'' \<mapsto> ''U One''])"
  "resp_status userinfo_401 = 401" "resp_text userinfo_401 = ''denied''"
  by (simp_all add: ok_def token_response_def userinfo_ok_def userinfo_401_def)

lemma callback_page_fields:
  "sessionStorage callback_page ''keycloak_code_verifier'' = Some ''v1''"
  "callbackProcessed callback_page = False"
  "search callback_page ''code'' = Some ''abc''"
  "search callback_page ''error'' = None"
  "origin callback_page = ''http://localhost:3001''"
  "entered callback_page = []"
  "fetched callback_page = []"
  by (simp_all add: callback_page_def)

text \<open>
  Claim C1, as the code has it. When a non-empty verifier is stored, \<open>handleCallback\<close>
  reads it and sends it in the token request. It removes the verifier only after the
  body of a successful userinfo response has been read: when it returns a result, and
  when it then throws on a body that is \<open>null\<close>. After every other throw the verifier is
  still stored. In particular, when the token exchange succeeded and the userinfo
  endpoint answers with a status outside 200-299, \<open>handleCallback\<close> throws the
  user-info error with that status and body, the verifier is still stored, and local
  storage is as it was.
\<close>

theorem handleCallback_verifier_fate:
  assumes "sessionStorage w ''keycloak_code_verifier'' = Some v" and "v \<noteq> []"
  shows "sessionStorage (snd (handleCallback p pf code redirectUri w)) ''keycloak_code_verifier'' =
           (case fst (handleCallback p pf code redirectUri w) of
              Inl e \<Rightarrow> if e = TypeError ''sub'' then None else Some v
            | Inr res \<Rightarrow> None)
       \<and> (\<exists>rest. fetched (snd (handleCallback p pf code redirectUri w)) =
             fetched w @ token_request p code redirectUri v # rest)
       \<and> (fetch pf (token_request p code redirectUri v) = Inr tr \<and> ok tr \<and>
          resp_json tr = Inr (JsonObject tks) \<and>
          fetch pf (userinfo_request p tks) = Inr ur \<and> \<not> ok ur \<longrightarrow>
            fst (handleCallback p pf code redirectUri w) =
              Inl (UserInfoFailed (resp_status ur) (resp_text ur)) \<and>
            sessionStorage (snd (handleCallback p pf code redirectUri w))
              ''keycloak_code_verifier'' = Some v \<and>
            localStorage (snd (handleCallback p pf code redirectUri w)) = localStorage w)"
proof (intro conjI impI)
  have pair: "handleCallback p pf code redirectUri w =
      (fst (handleCallback p pf code redirectUri w), snd (handleCallback p pf code redirectUri w))"
    by simp
  show fate: "sessionStorage (snd (handleCallback p pf code redirectUri w))
      ''keycloak_code_verifier'' =
      (case fst (handleCallback p pf code redirectUri w) of
         Inl e \<Rightarrow> if e = TypeError ''sub'' then None else Some v
       | Inr res \<Rightarrow> None)"
    by (rule handleCallback_verifier [OF assms pair])
  show "\<exists>rest. fetched (snd (handleCallback p pf code redirectUri w)) =
      fetched w @ token_request p code redirectUri v # rest"
    by (rule handleCallback_first_request [OF assms])
  assume a: "fetch pf (token_request p code redirectUri v) = Inr tr \<and> ok tr \<and>
      resp_json tr = Inr (JsonObject tks) \<and>
      fetch pf (userinfo_request p tks) = Inr ur \<and> \<not> ok ur"
  then show failed: "fst (handleCallback p pf code redirectUri w) =
      Inl (UserInfoFailed (resp_status ur) (resp_text ur))"
    using handleCallback_userinfo_failed(1) [OF assms, of pf p code redirectUri tr tks ur]
    by blast
  from a show "localStorage (snd (handleCallback p pf code redirectUri w)) = localStorage w"
    using handleCallback_userinfo_failed(2) [OF assms, of pf p code redirectUri tr tks ur]
    by blast
  from fate failed
  show "sessionStorage (snd (handleCallback p pf code redirectUri w))
      ''keycloak_code_verifier'' = Some v"
    by simp
qed

text \<open>The theorem on a callback page whose broker answers the userinfo request with 401.\<close>

theorem handleCallback_verifier_fate_witness:
  "fst (handleCallback local_provider (broker userinfo_401) ''abc''
          ''http://localhost:3001/callback'' callback_page) = Inl (UserInfoFailed 401 ''denied'')
   \<and> localStorage (snd (handleCallback local_provider (broker userinfo_401) ''abc''
          ''http://localhost:3001/callback'' callback_page)) = localStorage callback_page"
proof -
  have v: "sessionStorage callback_page ''keycloak_code_verifier'' = Some ''v1''" "''v1'' \<noteq> []"
    by (simp_all add: callback_page_fields)
  note t = handleCallback_verifier_fate [OF v, of local_provider "broker userinfo_401" "''abc''"
      "''http://localhost:3001/callback''" token_response
      "[''access_token'' \<mapsto> ''AT1'', ''id_token'' \<mapsto> ''IT1'']" userinfo_401]
  then show ?thesis
    by (simp add: scenario_fetch scenario_responses)
qed

text \<open>
  After the userinfo request was answered with 401, the verifier is not removed: session
  storage still holds it.
\<close>

theorem handleCallback_keeps_verifier_counterexample:
  "fst (handleCallback local_provider (broker userinfo_401) ''abc''
          ''http://localhost:3001/callback'' callback_page) = Inl (UserInfoFailed 401 ''denied'')
   \<and> sessionStorage (snd (handleCallback local_provider (broker userinfo_401) ''abc''
          ''http://localhost:3001/callback'' callback_page)) ''keycloak_code_verifier'' = Some ''v1''"
proof -
  have v: "sessionStorage callback_page ''keycloak_code_verifier'' = Some ''v1''" "''v1'' \<noteq> []"
    by (simp_all add: callback_page_fields)
  have f: "fst (handleCallback local_provider (broker userinfo_401) ''abc''
          ''http://localhost:3001/callback'' callback_page) = Inl (UserInfoFailed 401 ''denied'')"
    using handleCallback_userinfo_failed(1) [OF v, of "broker userinfo_401" local_provider
        "''abc''" "''http://localhost:3001/callback''" token_response
        "[''access_token'' \<mapsto> ''AT1'', ''id_token'' \<mapsto> ''IT1'']" userinfo_401]
    by (simp add: scenario_fetch scenario_responses)
  have "sessionStorage (snd (handleCallback local_provider (broker userinfo_401) ''abc''
          ''http://localhost:3001/callback'' callback_page)) ''keycloak_code_verifier'' =
        (case fst (handleCallback local_provider (broker userinfo_401) ''abc''
          ''http://localhost:3001/callback'' callback_page) of
           Inl e \<Rightarrow> if e = TypeError ''sub'' then None else Some ''v1''
         | Inr res \<Rightarrow> None)"
    by (rule handleCallback_verifier [OF v]) simp
  with f show ?thesis by simp
qed

lemma scenario_success:
  "handleCallback local_provider (broker userinfo_ok) ''abc'' ''http://localhost:3001/callback''
     callback_page =
   (Inr \<lparr> tokens = [''access_token'' \<mapsto> ''AT1'', ''id_token'' \<mapsto> ''IT1''],
          user = normalizeUser
            [''sub'' \<mapsto> ''u1'', ''email'' \<mapsto> ''user@gmail.com'', ''name'' \<mapsto> ''U One''] \<rparr>,
    callback_page
      \<lparr> entered := [(''abc'', ''http://localhost:3001/callback'')],
        fetched := [token_request local_provider ''abc'' ''http://localhost:3001/callback'' ''v1'',
                    userinfo_request local_provider
                      [''access_token'' \<mapsto> ''AT1'', ''id_token'' \<mapsto> ''IT1'']],
        sessionStorage := [''keycloak_id_token'' \<mapsto> ''IT1''] \<rparr>)"
  by (simp add: handleCallback_def Let_def scenario_fetch scenario_responses callback_page_fields)
     (auto simp: callback_page_def)

text \<open>
  Claim C3. If a call of \<open>handleCallback\<close> returns a result, the verifier is gone
  afterwards, and a second call with the same code, whatever the network would answer,
  throws the missing-verifier error at once: it issues no request and leaves both
  storages as they are. The first call's result is a value that the second call does
  not touch.
\<close>

theorem handleCallback_second_call:
  assumes "handleCallback p pf code redirectUri w = (Inr res, w1)"
  shows "handleCallback p pf' code redirectUri' w1 =
           (Inl MissingVerifier, w1\<lparr>entered := entered w1 @ [(code, redirectUri')]\<rparr>)
       \<and> fetched (snd (handleCallback p pf' code redirectUri' w1)) = fetched w1
       \<and> sessionStorage (snd (handleCallback p pf' code redirectUri' w1)) = sessionStorage w1
       \<and> localStorage (snd (handleCallback p pf' code redirectUri' w1)) = localStorage w1
       \<and> sessionStorage w1 ''keycloak_code_verifier'' = None"
proof -
  have gone: "sessionStorage w1 ''keycloak_code_verifier'' = None"
    by (rule handleCallback_success_removes [OF assms])
  then have "handleCallback p pf' code redirectUri' w1 =
      (Inl MissingVerifier, w1\<lparr>entered := entered w1 @ [(code, redirectUri')]\<rparr>)"
    by (intro handleCallback_missing) simp
  with gone show ?thesis by simp
qed

text \<open>
  The theorem after a successful exchange: the second call fails although the broker
  would answer, and the two requests of the first call are the only ones issued.
\<close>

theorem handleCallback_second_call_witness:
  "fst (handleCallback local_provider (broker userinfo_ok) ''abc'' ''http://localhost:3001/callback''
          callback_page) =
     Inr \<lparr> tokens = [''access_token'' \<mapsto> ''AT1'', ''id_token'' \<mapsto> ''IT1''],
           user = normalizeUser
             [''sub'' \<mapsto> ''u1'', ''email'' \<mapsto> ''user@gmail.com'', ''name'' \<mapsto> ''U One''] \<rparr>
   \<and> fst (handleCallback local_provider (broker userinfo_401) ''abc''
          ''http://localhost:3001/callback''
          (snd (handleCallback local_provider (broker userinfo_ok) ''abc''
                  ''http://localhost:3001/callback'' callback_page))) = Inl MissingVerifier
   \<and> length (fetched (snd (handleCallback local_provider (broker userinfo_401) ''abc''
          ''http://localhost:3001/callback''
          (snd (handleCallback local_provider (broker userinfo_ok) ''abc''
                  ''http://localhost:3001/callback'' callback_page))))) = 2"
  using handleCallback_second_call [OF scenario_success, of "broker userinfo_401"
      "''http://localhost:3001/callback''"]
  by (simp add: scenario_success)

section \<open>Properties of logout\<close>

lemma logout_try_throws_early:
  assumes "logout_try p pf w = (Inl e, w')"
  shows "w' = w"
  using assms
  by (auto simp: logout_try_def Let_def split: sum.splits if_splits)

lemma logout_try_local:
  assumes "logout_try p pf w = (Inr u, w')"
    and "\<not> truthy_str (sessionStorage w ''keycloak_id_token'')"
  shows "w' = (clearLocalStorage w)\<lparr>href := ''/''\<rparr>"
  using assms
  by (auto simp: logout_try_def Let_def split: sum.splits if_splits)

lemma clearLocalStorage_fields:
  "localStorage (clearLocalStorage w) ''access_token'' = None"
  "localStorage (clearLocalStorage w) ''user_info'' = None"
  "localStorage (clearLocalStorage w) ''auth_provider'' = None"
  "sessionStorage (clearLocalStorage w) ''keycloak_code_verifier'' = None"
  "sessionStorage (clearLocalStorage w) ''keycloak_id_token'' = None"
  "callbackProcessed (clearLocalStorage w) = False"
  "localStorage (clearLocalStorage w) ''identity_provider'' = localStorage w ''identity_provider''"
  "href (clearLocalStorage w) = href w"
  by (simp_all add: clearLocalStorage_def)

lemma performIdpSpecificLogout_storage:
  "localStorage (performIdpSpecificLogout pf i t w) = localStorage w"
  "sessionStorage (performIdpSpecificLogout pf i t w) = sessionStorage w"
  "callbackProcessed (performIdpSpecificLogout pf i t w) = callbackProcessed w"
  by (simp_all add: performIdpSpecificLogout_def Let_def split: option.splits)

lemma logout_try_cleared:
  assumes "logout_try p pf w = (Inr u, w')"
  shows "localStorage w' ''access_token'' = None \<and> localStorage w' ''user_info'' = None \<and>
     localStorage w' ''auth_provider'' = None \<and>
     sessionStorage w' ''keycloak_code_verifier'' = None \<and>
     sessionStorage w' ''keycloak_id_token'' = None \<and> \<not> callbackProcessed w'"
  using assms
  by (auto simp: logout_try_def Let_def clearLocalStorage_fields performIdpSpecificLogout_storage
      split: sum.splits if_splits)

lemma logout_cases:
  "logout p pf w =
     (Inr (), if isl (fst (logout_try p pf w)) then (clearLocalStorage w)\<lparr>href := ''/''\<rparr>
              else snd (logout_try p pf w))"
proof (cases "logout_try p pf w")
  case (Pair r w')
  show ?thesis
  proof (cases r)
    case (Inl e)
    with Pair have "w' = w" using logout_try_throws_early by blast
    with Pair Inl show ?thesis by (simp add: logout_def)
  next
    case (Inr u)
    with Pair show ?thesis by (simp add: logout_def)
  qed
qed

text \<open>
  Claim C2, on the code. When no id token is stored, \<open>logout\<close> builds no end-session
  URL: it runs \<open>clearLocalStorage\<close> and sets the navigation target to the application
  root. \<open>clearLocalStorage\<close> removes the verifier, the id token, the access token, the
  identity record and \<open>auth_provider\<close>, but the key \<open>identity_provider\<close>, under which the
  callback component stores the resolved provider label, keeps its value.
\<close>

theorem logout_without_id_token:
  assumes "\<not> truthy_str (sessionStorage w ''keycloak_id_token'')"
  shows "logout p pf w = (Inr (), (clearLocalStorage w)\<lparr>href := ''/''\<rparr>)
       \<and> href (snd (logout p pf w)) = ''/''
       \<and> localStorage (snd (logout p pf w)) ''identity_provider'' =
           localStorage w ''identity_provider''"
proof -
  have "logout p pf w = (Inr (), (clearLocalStorage w)\<lparr>href := ''/''\<rparr>)"
  proof (cases "logout_try p pf w")
    case (Pair r w')
    show ?thesis
    proof (cases r)
      case (Inl e)
      with Pair show ?thesis by (simp add: logout_cases)
    next
      case (Inr u)
      with Pair assms have "w' = (clearLocalStorage w)\<lparr>href := ''/''\<rparr>"
        using logout_try_local by blast
      with Pair Inr show ?thesis by (simp add: logout_cases)
    qed
  qed
  then show ?thesis by (simp add: clearLocalStorage_fields)
qed

text \<open>
  The theorem on a signed-in page without an id token: after \<open>logout\<close> the label
  \<open>Google\<close> is still stored.
\<close>

theorem logout_without_id_token_witness:
  "href (snd (logout local_provider (broker userinfo_ok) signed_in_page)) = ''/''
   \<and> localStorage (snd (logout local_provider (broker userinfo_ok) signed_in_page))
        ''identity_provider'' = Some ''Google''
   \<and> localStorage (snd (logout local_provider (broker userinfo_ok) signed_in_page))
        ''access_token'' = None"
proof -
  have n: "\<not> truthy_str (sessionStorage signed_in_page ''keycloak_id_token'')"
    by (simp add: signed_in_page_def)
  from logout_without_id_token [OF n, of local_provider "broker userinfo_ok"]
  show ?thesis by (simp add: clearLocalStorage_fields) (simp add: signed_in_page_def)
qed

lemma logout_try_label:
  "localStorage (snd (logout_try p pf w)) ''identity_provider'' =
     localStorage w ''identity_provider''"
  by (simp add: logout_try_def Let_def clearLocalStorage_fields
      performIdpSpecificLogout_storage split: sum.splits)

lemma logout_cleared:
  "localStorage (snd (logout p pf w)) ''access_token'' = None \<and>
   localStorage (snd (logout p pf w)) ''user_info'' = None \<and>
   localStorage (snd (logout p pf w)) ''auth_provider'' = None \<and>
   sessionStorage (snd (logout p pf w)) ''keycloak_code_verifier'' = None \<and>
   sessionStorage (snd (logout p pf w)) ''keycloak_id_token'' = None"
proof (cases "isl (fst (logout_try p pf w))")
  case True
  then show ?thesis by (simp add: logout_cases clearLocalStorage_fields)
next
  case False
  then obtain u where "logout_try p pf w = (Inr u, snd (logout_try p pf w))"
    by (cases "logout_try p pf w"; cases "fst (logout_try p pf w)") auto
  from logout_try_cleared [OF this] False show ?thesis by (simp add: logout_cases)
qed

text \<open>
  Claim C7, on the code. Whenever the body of the \<open>try\<close> in \<open>logout\<close> throws, as it
  does on an identity record that \<open>JSON.parse\<close> rejects, the \<open>catch\<close> runs
  \<open>clearLocalStorage\<close> and sets the navigation target to the application root. On
  every path \<open>logout\<close> removes the access token, the identity record, \<open>auth_provider\<close>,
  the verifier and the id token; but local storage is not cleared: the key
  \<open>identity_provider\<close> keeps its value, after the fallback as after every other path.
\<close>

theorem logout_fallback_keeps_identity_provider:
  "(fst (logout_try p pf w) = Inl e \<longrightarrow>
      snd (logout p pf w) = (clearLocalStorage w)\<lparr>href := ''/''\<rparr> \<and>
      href (snd (logout p pf w)) = ''/'')
   \<and> (JSON_parse pf (string_of (or_str (localStorage w ''user_info'') (Some ''{}''))) = Inl m \<longrightarrow>
        fst (logout_try p pf w) = Inl (Rejected m))
   \<and> localStorage (snd (logout p pf w)) ''access_token'' = None
   \<and> localStorage (snd (logout p pf w)) ''user_info'' = None
   \<and> localStorage (snd (logout p pf w)) ''auth_provider'' = None
   \<and> sessionStorage (snd (logout p pf w)) ''keycloak_code_verifier'' = None
   \<and> sessionStorage (snd (logout p pf w)) ''keycloak_id_token'' = None
   \<and> localStorage (snd (logout p pf w)) ''identity_provider'' =
        localStorage w ''identity_provider''"
proof -
  have fallback: "fst (logout_try p pf w) = Inl e \<longrightarrow>
      snd (logout p pf w) = (clearLocalStorage w)\<lparr>href := ''/''\<rparr> \<and>
      href (snd (logout p pf w)) = ''/''"
    by (simp add: logout_cases)
  have parse: "JSON_parse pf (string_of (or_str (localStorage w ''user_info'') (Some ''{}''))) = Inl m \<longrightarrow>
      fst (logout_try p pf w) = Inl (Rejected m)"
    by (simp add: logout_try_def Let_def)
  have label: "localStorage (snd (logout p pf w)) ''identity_provider'' =
      localStorage w ''identity_provider''"
    using logout_try_label [of p pf w]
    by (simp add: logout_cases clearLocalStorage_fields)
  from fallback parse label logout_cleared [of p pf w] show ?thesis by blast
qed

text \<open>
  The theorem on a page that holds an id token and the label \<open>Google\<close>, and whose
  identity record does not parse: \<open>logout\<close> takes the fallback, and the label is still
  stored afterwards.
\<close>

theorem logout_fallback_keeps_identity_provider_witness:
  "fst (logout_try local_provider (broker userinfo_ok) corrupt_page) =
     Inl (Rejected ''Unexpected token'')
   \<and> href (snd (logout local_provider (broker userinfo_ok) corrupt_page)) = ''/''
   \<and> localStorage (snd (logout local_provider (broker userinfo_ok) corrupt_page))
        ''access_token'' = None
   \<and> localStorage (snd (logout local_provider (broker userinfo_ok) corrupt_page))
        ''identity_provider'' = Some ''Google''"
proof -
  have s: "localStorage corrupt_page ''user_info'' = Some ''{cut''"
    "localStorage corrupt_page ''identity_provider'' = Some ''Google''"
    by (simp_all add: corrupt_page_def signed_in_page_def)
  have j: "JSON_parse (broker userinfo_ok)
      (string_of (or_str (localStorage corrupt_page ''user_info'') (Some ''{}''))) =
      Inl ''Unexpected token''"
    by (simp add: s or_str_def string_of_def broker_def)
  note t = logout_fallback_keeps_identity_provider [of local_provider "broker userinfo_ok"
      corrupt_page "Rejected ''Unexpected token''" "''Unexpected token''"]
  from t j have thrown: "fst (logout_try local_provider (broker userinfo_ok) corrupt_page) =
      Inl (Rejected ''Unexpected token'')"
    by blast
  with t have "href (snd (logout local_provider (broker userinfo_ok) corrupt_page)) = ''/''"
    and "localStorage (snd (logout local_provider (broker userinfo_ok) corrupt_page))
        ''access_token'' = None"
    and "localStorage (snd (logout local_provider (broker userinfo_ok) corrupt_page))
        ''identity_provider'' = localStorage corrupt_page ''identity_provider''"
    by blast+
  with thrown s(2) show ?thesis by simp
qed

section \<open>Properties of the callback component\<close>

lemma handleCallback_entered:
  "entered (snd (handleCallback p pf code redirectUri w)) = entered w @ [(code, redirectUri)]"
  by (simp add: handleCallback_def Let_def split: sum.splits json.splits)

lemma handleCallback_flag:
  "callbackProcessed (snd (handleCallback p pf code redirectUri w)) = callbackProcessed w"
  by (simp add: handleCallback_def Let_def split: sum.splits json.splits)

lemma store_result_fields:
  "entered (store_result pf result d w) = entered w"
  "callbackProcessed (store_result pf result d w) = callbackProcessed w"
  by (simp_all add: store_result_def Let_def)

lemma callback_effect_skip:
  "callbackProcessed (fst s) \<Longrightarrow> callback_effect p pf s = s"
  by (cases s) (simp add: callback_effect_def)

lemma callback_effect_world:
  assumes "\<not> callbackProcessed (fst s)"
  shows "callbackProcessed (fst (callback_effect p pf s)) \<and>
     (entered (fst (callback_effect p pf s)) = entered (fst s) \<or>
      entered (fst (callback_effect p pf s)) =
        entered (fst s) @ [(the (search (fst s) ''code''), origin (fst s) @ ''/callback'')])"
proof (cases s)
  case (Pair w0 v)
  let ?w = "w0\<lparr>callbackProcessed := True\<rparr>"
  let ?h = "handleCallback p pf (the (search w0 ''code'')) (origin w0 @ ''/callback'') ?w"
  have h: "callbackProcessed (snd ?h)"
    "entered (snd ?h) = entered w0 @ [(the (search w0 ''code''), origin w0 @ ''/callback'')]"
    by (simp_all add: handleCallback_flag handleCallback_entered)
  show ?thesis
  proof (cases "truthy_str (search w0 ''error'') \<or> \<not> truthy_str (search w0 ''code'')")
    case True
    with Pair assms show ?thesis by (auto simp: callback_effect_def Let_def)
  next
    case False
    obtain r w1 where rw: "?h = (r, w1)" by (cases ?h)
    with h have w1: "callbackProcessed w1"
      "entered w1 = entered w0 @ [(the (search w0 ''code''), origin w0 @ ''/callback'')]"
      by simp_all
    from Pair assms False rw w1 show ?thesis
      by (cases r) (simp_all add: callback_effect_def Let_def store_result_fields)
  qed
qed

lemma callback_effect_sets: "callbackProcessed (fst (callback_effect p pf s))"
  using callback_effect_skip [of s p pf] callback_effect_world [of s p pf]
  by (cases "callbackProcessed (fst s)") auto

lemma callback_effect_entered:
  "length (entered (fst (callback_effect p pf s))) \<le> Suc (length (entered (fst s)))"
  using callback_effect_skip [of s p pf] callback_effect_world [of s p pf]
  by (cases "callbackProcessed (fst s)") auto

lemma callback_effects_skip:
  "callbackProcessed (fst s) \<Longrightarrow> callback_effects p pfs s = s"
  by (induction pfs) (simp_all add: callback_effect_skip)

lemma callback_effects_first:
  "callback_effects p (pf # pfs) s = callback_effect p pf s"
  using callback_effects_skip [OF callback_effect_sets] by simp

text \<open>
  Claim C9. Once \<open>window.callbackProcessed\<close> is set, an invocation of the effect
  returns with the state unchanged, so without an entry into \<open>handleCallback\<close> and
  without a request. Every invocation leaves the flag set, so of any number of
  invocations within a page load only the first can get past the guard, and
  \<open>handleCallback\<close> is entered at most once.
\<close>

theorem callback_guard_once:
  "(callbackProcessed (fst s) \<longrightarrow>
      callback_effect p pf s = s \<and> callback_effects p pfs s = s)
   \<and> callbackProcessed (fst (callback_effect p pf s))
   \<and> callback_effects p (pf # pfs) s = callback_effect p pf s
   \<and> length (entered (fst (callback_effects p pfs s))) \<le> Suc (length (entered (fst s)))"
proof -
  have "length (entered (fst (callback_effects p pfs s))) \<le> Suc (length (entered (fst s)))"
  proof (cases pfs)
    case Nil
    then show ?thesis by simp
  next
    case (Cons q qs)
    then show ?thesis
      using callback_effect_entered [of p q s] by (simp only: callback_effects_first)
  qed
  then show ?thesis
    using callback_effect_skip [of s p pf] callback_effects_skip [of s p pfs]
      callback_effect_sets [of p pf s] callback_effects_first [of p pf pfs s]
    by blast
qed

text \<open>
  The theorem on a callback page with a code: two invocations enter \<open>handleCallback\<close>
  once, and the second leaves the state of the first.
\<close>

lemma scenario_effect:
  "fst (callback_effect local_provider (broker userinfo_ok) (callback_page, initial_view)) =
     store_result (broker userinfo_ok)
       \<lparr> tokens = [''access_token'' \<mapsto> ''AT1'', ''id_token'' \<mapsto> ''IT1''],
         user = normalizeUser
           [''sub'' \<mapsto> ''u1'', ''email'' \<mapsto> ''user@gmail.com'', ''name'' \<mapsto> ''U One''] \<rparr>
       (detectIdentityProvider (Some ''user@gmail.com''))
       (snd (handleCallback local_provider (broker userinfo_ok) ''abc''
               ''http://localhost:3001/callback'' (callback_page\<lparr>callbackProcessed := True\<rparr>)))"
proof -
  have e: "normalizeUser
      [''sub'' \<mapsto> ''u1'', ''email'' \<mapsto> ''user@gmail.com'', ''name'' \<mapsto> ''U One''] ''email'' =
      Some ''user@gmail.com''"
    by (simp add: normalizeUser_def)
  have h: "fst (handleCallback local_provider (broker userinfo_ok) ''abc''
      ''http://localhost:3001/callback'' (callback_page\<lparr>callbackProcessed := True\<rparr>)) =
      Inr \<lparr> tokens = [''access_token'' \<mapsto> ''AT1'', ''id_token'' \<mapsto> ''IT1''],
         user = normalizeUser
           [''sub'' \<mapsto> ''u1'', ''email'' \<mapsto> ''user@gmail.com'', ''name'' \<mapsto> ''U One''] \<rparr>"
    by (simp add: handleCallback_def Let_def callback_page_fields scenario_fetch
        scenario_responses)
  obtain w1 where pair: "handleCallback local_provider (broker userinfo_ok) ''abc''
      ''http://localhost:3001/callback'' (callback_page\<lparr>callbackProcessed := True\<rparr>) =
      (Inr \<lparr> tokens = [''access_token'' \<mapsto> ''AT1'', ''id_token'' \<mapsto> ''IT1''],
         user = normalizeUser
           [''sub'' \<mapsto> ''u1'', ''email'' \<mapsto> ''user@gmail.com'', ''name'' \<mapsto> ''U One''] \<rparr>,
       w1)"
    using h
    by (cases "handleCallback local_provider (broker userinfo_ok) ''abc''
      ''http://localhost:3001/callback'' (callback_page\<lparr>callbackProcessed := True\<rparr>)") auto
  show ?thesis
    by (simp add: callback_effect_def Let_def callback_page_fields pair e)
qed

theorem callback_guard_once_witness:
  "entered (fst (callback_effects local_provider [broker userinfo_ok, broker userinfo_401]
                   (callback_page, initial_view))) = [(''abc'', ''http://localhost:3001/callback'')]
   \<and> callbackProcessed (fst (callback_effect local_provider (broker userinfo_ok)
                   (callback_page, initial_view)))
   \<and> callback_effect local_provider (broker userinfo_401)
        (callback_effect local_provider (broker userinfo_ok) (callback_page, initial_view)) =
      callback_effect local_provider (broker userinfo_ok) (callback_page, initial_view)"
proof -
  let ?s1 = "callback_effect local_provider (broker userinfo_ok) (callback_page, initial_view)"
  note a = callback_guard_once [of "(callback_page, initial_view)" local_provider
      "broker userinfo_ok" "[broker userinfo_401]"]
  note b = callback_guard_once [of ?s1 local_provider "broker userinfo_401" "[]"]
  from a have flag: "callbackProcessed (fst ?s1)"
    and first: "callback_effects local_provider [broker userinfo_ok, broker userinfo_401]
        (callback_page, initial_view) = ?s1"
    by blast+
  from b flag have skip: "callback_effect local_provider (broker userinfo_401) ?s1 = ?s1"
    by blast
  have "entered (fst ?s1) = [(''abc'', ''http://localhost:3001/callback'')]"
    unfolding scenario_effect
    by (simp add: store_result_fields handleCallback_entered callback_page_fields)
  with flag first skip show ?thesis by simp
qed

end
